theory Spec2Isabelle
  imports Complex_Main
begin

section \<open>JavaScript values\<close>

text \<open>
  Strings of the source are sequences of code units; the model keeps the code units
  0 to 255 (one \<^typ>\<open>char\<close> each), so that the accented letters of the
  column names and of the messages, and the no-break space, are single characters, as
  they are for the source.

  A JavaScript number that the import code computes is a finite value, an infinity or
  NaN. Finite values are kept exact (a rational): the rounding of a double to 53 bits
  is not modelled, and neither is the sign of a zero.
\<close>

datatype jsnum = Fin rat | PosInf | NegInf | NaN

fun js_div :: "jsnum \<Rightarrow> jsnum \<Rightarrow> jsnum" where
  "js_div NaN _ = NaN"
| "js_div _ NaN = NaN"
| "js_div (Fin a) (Fin b) =
     (if b = 0 then (if a = 0 then NaN else if 0 < a then PosInf else NegInf)
      else Fin (a / b))"
| "js_div (Fin a) PosInf = Fin 0"
| "js_div (Fin a) NegInf = Fin 0"
| "js_div PosInf (Fin b) = (if 0 \<le> b then PosInf else NegInf)"
| "js_div NegInf (Fin b) = (if 0 \<le> b then NegInf else PosInf)"
| "js_div PosInf PosInf = NaN"
| "js_div PosInf NegInf = NaN"
| "js_div NegInf PosInf = NaN"
| "js_div NegInf NegInf = NaN"

fun js_mul :: "jsnum \<Rightarrow> jsnum \<Rightarrow> jsnum" where
  "js_mul NaN _ = NaN"
| "js_mul _ NaN = NaN"
| "js_mul (Fin a) (Fin b) = Fin (a * b)"
| "js_mul (Fin a) PosInf = (if a = 0 then NaN else if 0 < a then PosInf else NegInf)"
| "js_mul (Fin a) NegInf = (if a = 0 then NaN else if 0 < a then NegInf else PosInf)"
| "js_mul PosInf (Fin b) = (if b = 0 then NaN else if 0 < b then PosInf else NegInf)"
| "js_mul NegInf (Fin b) = (if b = 0 then NaN else if 0 < b then NegInf else PosInf)"
| "js_mul PosInf PosInf = PosInf"
| "js_mul PosInf NegInf = NegInf"
| "js_mul NegInf PosInf = NegInf"
| "js_mul NegInf NegInf = PosInf"

text \<open>\<open>Math.round\<close>: the nearest integer, a half rounded towards plus infinity.\<close>

fun Math_round :: "jsnum \<Rightarrow> jsnum" where
  "Math_round (Fin a) = Fin (of_int \<lfloor>a + 1 / 2\<rfloor>)"
| "Math_round x = x"

fun Math_abs :: "jsnum \<Rightarrow> jsnum" where
  "Math_abs (Fin a) = Fin \<bar>a\<bar>"
| "Math_abs PosInf = PosInf"
| "Math_abs NegInf = PosInf"
| "Math_abs NaN = NaN"

text \<open>The comparisons \<open>x > 0\<close> and \<open>x <= y\<close> of JavaScript: false whenever an operand is NaN.\<close>

fun js_gt0 :: "jsnum \<Rightarrow> bool" where
  "js_gt0 (Fin a) = (0 < a)"
| "js_gt0 PosInf = True"
| "js_gt0 NegInf = False"
| "js_gt0 NaN = False"

fun js_le :: "jsnum \<Rightarrow> jsnum \<Rightarrow> bool" where
  "js_le NaN _ = False"
| "js_le _ NaN = False"
| "js_le (Fin a) (Fin b) = (a \<le> b)"
| "js_le NegInf _ = True"
| "js_le _ PosInf = True"
| "js_le PosInf _ = False"
| "js_le _ NegInf = False"

fun isNaN :: "jsnum \<Rightarrow> bool" where
  "isNaN NaN = True"
| "isNaN _ = False"

definition num :: "nat \<Rightarrow> jsnum" where
  "num n = Fin (of_nat n)"

text \<open>\<open>xs.slice(-n)\<close>: the last \<open>n\<close> elements, all of them when there are fewer.\<close>

definition slice_last :: "nat \<Rightarrow> 'a list \<Rightarrow> 'a list" where
  "slice_last n xs = drop (length xs - n) xs"

section \<open>The session and progress tracker (services/streamingService)\<close>

datatype status = processing | finalizing | completed | failed

record error_entry =
  err_message :: string
  err_row :: "nat option"
  err_timestamp :: int

text \<open>
  The result handed to \<open>completeImportSession\<close>: the final result of a run that reached
  the end of the stream (\<open>success, imported, errors, total, message\<close>) or the object
  \<open>{success: false, error}\<close> of a run that was aborted.
\<close>

record import_result =
  success :: bool
  imported :: "nat option"
  result_errors :: "nat option"
  result_total :: "nat option"
  result_message :: "string option"
  result_error :: "string option"

record session =
  uploadId :: string
  userId :: string
  filename :: string
  totalRows :: nat
  processedRows :: nat
  successfulRows :: nat
  errorRows :: nat
  errors :: "error_entry list"
  startTime :: int
  status :: status
  currentBatch :: nat
  progress :: jsnum
  estimatedTimeRemaining :: "jsnum option"
  processingSpeed :: jsnum
  endTime :: "int option"
  duration :: "int option"
  result :: "import_result option"

datatype message_type = import_started | progress_msg | import_completed

text \<open>A message \<open>{type, uploadId, ...session}\<close>: the type and a snapshot of the session.\<close>

record message =
  msg_type :: message_type
  msg_uploadId :: string
  msg_session :: session

text \<open>
  A subscribed WebSocket: its identity, the \<open>userId\<close> stored on it by \<open>subscribeClient\<close>,
  whether \<open>readyState\<close> is \<open>OPEN\<close> and whether \<open>send\<close> throws.
\<close>

record websocket =
  ws_id :: nat
  ws_userId :: "string option"
  ws_open :: bool
  ws_send_throws :: bool

text \<open>
  The service object: the map \<open>clients\<close> (a user's sockets in insertion order), the map
  \<open>importSessions\<close>, and two logs of what the service did to the outside: the messages
  handed to a socket's \<open>send\<close>, and the upload ids whose deletion \<open>setTimeout\<close> scheduled.
\<close>

record tracker =
  clients :: "string \<rightharpoonup> websocket list"
  importSessions :: "string \<rightharpoonup> session"
  delivered :: "(nat \<times> message) list"
  deletionTimers :: "string list"

definition removeClient :: "tracker \<Rightarrow> websocket \<Rightarrow> tracker" where
  "removeClient tr ws =
     (case ws_userId ws of
        None \<Rightarrow> tr
      | Some u \<Rightarrow>
          (if u = [] then tr
           else case clients tr u of
             None \<Rightarrow> tr
           | Some cs \<Rightarrow>
               (let cs' = filter (\<lambda>c. ws_id c \<noteq> ws_id ws) cs
                in if cs' = [] then tr\<lparr>clients := (clients tr)(u := None)\<rparr>
                   else tr\<lparr>clients := (clients tr)(u \<mapsto> cs')\<rparr>)))"

definition send_to :: "message \<Rightarrow> websocket \<Rightarrow> tracker \<Rightarrow> tracker" where
  "send_to msg ws tr =
     (if ws_open ws
      then (if ws_send_throws ws then removeClient tr ws
            else tr\<lparr>delivered := delivered tr @ [(ws_id ws, msg)]\<rparr>)
      else tr)"

definition broadcastToUser :: "tracker \<Rightarrow> string \<Rightarrow> message \<Rightarrow> tracker" where
  "broadcastToUser tr u msg =
     (case clients tr u of
        None \<Rightarrow> tr
      | Some userClients \<Rightarrow> fold (send_to msg) userClients tr)"

definition startImportSession ::
  "tracker \<Rightarrow> int \<Rightarrow> string \<Rightarrow> string \<Rightarrow> nat \<Rightarrow> string \<Rightarrow> tracker \<times> session" where
  "startImportSession tr now uid u n fname =
     (let s = \<lparr>uploadId = uid, userId = u, filename = fname, totalRows = n,
                processedRows = 0, successfulRows = 0, errorRows = 0, errors = [],
                startTime = now, status = processing, currentBatch = 0,
                progress = Fin 0, estimatedTimeRemaining = None, processingSpeed = Fin 0,
                endTime = None, duration = None, result = None\<rparr>;
          tr1 = tr\<lparr>importSessions := (importSessions tr)(uid \<mapsto> s)\<rparr>
      in (broadcastToUser tr1 u
            \<lparr>msg_type = import_started, msg_uploadId = uploadId s, msg_session = s\<rparr>, s))"

text \<open>
  The \<open>update\<close> object of \<open>updateProgress\<close>: the fields the import pipeline passes, each
  present or absent. \<open>Object.assign\<close> copies the present ones.
\<close>

record update =
  upd_processedRows :: "nat option"
  upd_successfulRows :: "nat option"
  upd_errorRows :: "nat option"
  upd_currentBatch :: "nat option"
  upd_status :: "status option"

definition no_update :: update where
  "no_update = \<lparr>upd_processedRows = None, upd_successfulRows = None, upd_errorRows = None,
                 upd_currentBatch = None, upd_status = None\<rparr>"

definition assign :: "session \<Rightarrow> update \<Rightarrow> session" where
  "assign s upd =
     s\<lparr>processedRows := (case upd_processedRows upd of None \<Rightarrow> processedRows s | Some v \<Rightarrow> v),
       successfulRows := (case upd_successfulRows upd of None \<Rightarrow> successfulRows s | Some v \<Rightarrow> v),
       errorRows := (case upd_errorRows upd of None \<Rightarrow> errorRows s | Some v \<Rightarrow> v),
       currentBatch := (case upd_currentBatch upd of None \<Rightarrow> currentBatch s | Some v \<Rightarrow> v),
       status := (case upd_status upd of None \<Rightarrow> status s | Some v \<Rightarrow> v)\<rparr>"

text \<open>
  The metrics \<open>updateProgress\<close> recomputes. \<open>now\<close> is the clock (\<open>new Date()\<close>) in
  milliseconds.
\<close>

definition recompute :: "int \<Rightarrow> session \<Rightarrow> session" where
  "recompute now s =
     (let s1 = s\<lparr>progress :=
                  Math_round (js_mul (js_div (num (processedRows s)) (num (totalRows s))) (Fin 100))\<rparr>;
          elapsedTime = js_div (Fin (of_int (now - startTime s1))) (Fin 1000);
          s2 = s1\<lparr>processingSpeed := Math_round (js_div (num (processedRows s1)) elapsedTime)\<rparr>
      in if js_gt0 (processingSpeed s2)
         then (let remainingRows = Fin (of_int (int (totalRows s2) - int (processedRows s2)))
               in s2\<lparr>estimatedTimeRemaining :=
                       Some (Math_round (js_div remainingRows (processingSpeed s2)))\<rparr>)
         else s2)"

definition updateProgress :: "tracker \<Rightarrow> int \<Rightarrow> string \<Rightarrow> update \<Rightarrow> tracker" where
  "updateProgress tr now uid upd =
     (case importSessions tr uid of
        None \<Rightarrow> tr
      | Some s0 \<Rightarrow>
          (let s = recompute now (assign s0 upd)
           in broadcastToUser (tr\<lparr>importSessions := (importSessions tr)(uid \<mapsto> s)\<rparr>) (userId s)
                \<lparr>msg_type = progress_msg, msg_uploadId = uploadId s, msg_session = s\<rparr>))"

definition addError :: "tracker \<Rightarrow> int \<Rightarrow> string \<Rightarrow> string \<Rightarrow> nat option \<Rightarrow> tracker" where
  "addError tr now uid err rowNumber =
     (case importSessions tr uid of
        None \<Rightarrow> tr
      | Some s0 \<Rightarrow>
          (let s1 = s0\<lparr>errorRows := errorRows s0 + 1\<rparr>;
               s2 = s1\<lparr>errors := errors s1 @
                          [\<lparr>err_message = err, err_row = rowNumber, err_timestamp = now\<rparr>]\<rparr>;
               s3 = (if 100 < length (errors s2)
                     then s2\<lparr>errors := slice_last 100 (errors s2)\<rparr> else s2)
           in updateProgress (tr\<lparr>importSessions := (importSessions tr)(uid \<mapsto> s3)\<rparr>)
                now uid no_update))"

definition completeImportSession :: "tracker \<Rightarrow> int \<Rightarrow> string \<Rightarrow> import_result \<Rightarrow> tracker" where
  "completeImportSession tr now uid res =
     (case importSessions tr uid of
        None \<Rightarrow> tr
      | Some s0 \<Rightarrow>
          (let s = s0\<lparr>status := (if success res then completed else failed),
                      endTime := Some now,
                      duration := Some \<lfloor>(of_int (now - startTime s0) :: rat) / 1000 + 1 / 2\<rfloor>,
                      result := Some res\<rparr>;
               tr1 = broadcastToUser (tr\<lparr>importSessions := (importSessions tr)(uid \<mapsto> s)\<rparr>)
                       (userId s)
                       \<lparr>msg_type = import_completed, msg_uploadId = uploadId s, msg_session = s\<rparr>
           in tr1\<lparr>deletionTimers := deletionTimers tr1 @ [uid]\<rparr>))"

definition getSessionStatus :: "tracker \<Rightarrow> string \<Rightarrow> session option" where
  "getSessionStatus tr uid = importSessions tr uid"

text \<open>A run of \<open>addError\<close> calls on one upload id, each with its message, row and clock.\<close>

definition addErrors :: "tracker \<Rightarrow> string \<Rightarrow> (string \<times> nat option \<times> int) list \<Rightarrow> tracker" where
  "addErrors tr uid calls = fold (\<lambda>(err, r, now) t. addError t now uid err r) calls tr"

definition entry_of :: "string \<times> nat option \<times> int \<Rightarrow> error_entry" where
  "entry_of c = (case c of (err, r, now) \<Rightarrow>
     \<lparr>err_message = err, err_row = r, err_timestamp = now\<rparr>)"

section \<open>Strings\<close>

text \<open>
  White space as \<open>trim\<close>, \<open>\s\<close> and \<open>parseFloat\<close> see it, among the code units 0 to 255:
  tab, line feed, vertical tab, form feed, carriage return, space and no-break space.
\<close>

definition isWhiteSpace :: "char \<Rightarrow> bool" where
  "isWhiteSpace c =
     (c \<in> set [CHR 0x09, CHR 0x0A, CHR 0x0B, CHR 0x0C, CHR 0x0D, CHR 0x20, CHR 0xA0])"

definition isDigit :: "char \<Rightarrow> bool" where
  "isDigit c = (c \<in> set ''0123456789'')"

definition digitValue :: "char \<Rightarrow> nat" where
  "digitValue c = of_char c - 48"

definition digitsValue :: "string \<Rightarrow> nat" where
  "digitsValue ds = foldl (\<lambda>n c. 10 * n + digitValue c) 0 ds"

definition trim :: "string \<Rightarrow> string" where
  "trim s = rev (dropWhile isWhiteSpace (rev (dropWhile isWhiteSpace s)))"

fun startsWith :: "string \<Rightarrow> string \<Rightarrow> bool" where
  "startsWith s [] = True"
| "startsWith [] (p # ps) = False"
| "startsWith (c # cs) (p # ps) = (c = p \<and> startsWith cs ps)"

fun js_includes :: "string \<Rightarrow> string \<Rightarrow> bool" where
  "js_includes [] sub = (sub = [])"
| "js_includes (c # cs) sub = (startsWith (c # cs) sub \<or> js_includes cs sub)"

text \<open>\<open>toLowerCase\<close> on the code units 0 to 255: A to Z and the accented capitals.\<close>

definition lowerChar :: "char \<Rightarrow> char" where
  "lowerChar c =
     (let n = (of_char c :: nat)
      in if (65 \<le> n \<and> n \<le> 90) \<or> (192 \<le> n \<and> n \<le> 222 \<and> n \<noteq> 215)
         then char_of (n + 32) else c)"

definition toLowerCase :: "string \<Rightarrow> string" where
  "toLowerCase s = map lowerChar s"

text \<open>\<open>s.split(sep)\<close> for a separator of one character.\<close>

fun js_split :: "char \<Rightarrow> string \<Rightarrow> string list" where
  "js_split sep [] = [[]]"
| "js_split sep (c # cs) =
     (if c = sep then [] # js_split sep cs
      else (case js_split sep cs of
              [] \<Rightarrow> [[c]]
            | p # ps \<Rightarrow> (c # p) # ps))"

text \<open>\<open>s.replace(a, b)\<close> with a string pattern of one character: the first occurrence only.\<close>

fun replace_first :: "char \<Rightarrow> char \<Rightarrow> string \<Rightarrow> string" where
  "replace_first a b [] = []"
| "replace_first a b (c # cs) = (if c = a then b # cs else c # replace_first a b cs)"

text \<open>\<open>s.replace(/R\$\s*/g, '')\<close>: every \<open>R$\<close> goes, with the white space after it.\<close>

function strip_currency :: "string \<Rightarrow> string" where
  "strip_currency [] = []"
| "strip_currency [c] = [c]"
| "strip_currency (c # d # cs) =
     (if c = CHR ''R'' \<and> d = CHR ''$'' then strip_currency (dropWhile isWhiteSpace cs)
      else c # strip_currency (d # cs))"
  by pat_completeness auto
termination
  by (relation "measure length") (auto simp: less_Suc_eq_le length_dropWhile_le le_SucI)

text \<open>
  \<open>parseInt\<close> on the digit strings the date patterns let through: the decimal value.
\<close>

definition parseInt :: "string \<Rightarrow> int" where
  "parseInt s = int (digitsValue s)"

text \<open>
  \<open>parseFloat\<close>: white space is skipped, then the longest prefix that is a decimal
  literal (sign, digits, fraction, exponent, or \<open>Infinity\<close>) gives the value; NaN when
  there is none. The value is the exact decimal.
\<close>

definition exponent_part :: "string \<Rightarrow> int" where
  "exponent_part r =
     (case r of
        [] \<Rightarrow> 0
      | e # r1 \<Rightarrow>
          (if e = CHR ''e'' \<or> e = CHR ''E'' then
             (case r1 of
                [] \<Rightarrow> 0
              | s # r2 \<Rightarrow>
                  (if s = CHR ''-'' then
                     (if takeWhile isDigit r2 = [] then 0
                      else - int (digitsValue (takeWhile isDigit r2)))
                   else if s = CHR ''+'' then int (digitsValue (takeWhile isDigit r2))
                   else int (digitsValue (takeWhile isDigit r1))))
           else 0))"

text \<open>The value of the digits \<open>ip\<close>, a decimal point and the digits \<open>fp\<close>.\<close>

definition decimal :: "string \<Rightarrow> string \<Rightarrow> rat" where
  "decimal ip fp = of_nat (digitsValue ip) + of_nat (digitsValue fp) / 10 ^ length fp"

definition unsigned_literal :: "string \<Rightarrow> jsnum" where
  "unsigned_literal s =
     (if startsWith s ''Infinity'' then PosInf
      else
        (let ip = takeWhile isDigit s;
             r = dropWhile isDigit s;
             hasDot = (case r of [] \<Rightarrow> False | c # _ \<Rightarrow> c = CHR ''.'');
             fp = (if hasDot then takeWhile isDigit (tl r) else []);
             r1 = (if hasDot then dropWhile isDigit (tl r) else r)
         in if ip = [] \<and> fp = [] then NaN
            else Fin (decimal ip fp * 10 powi exponent_part r1)))"

definition js_neg :: "jsnum \<Rightarrow> jsnum" where
  "js_neg x = (case x of Fin a \<Rightarrow> Fin (- a) | PosInf \<Rightarrow> NegInf | NegInf \<Rightarrow> PosInf | NaN \<Rightarrow> NaN)"

definition parseFloat :: "string \<Rightarrow> jsnum" where
  "parseFloat s =
     (case dropWhile isWhiteSpace s of
        [] \<Rightarrow> NaN
      | c # cs \<Rightarrow>
          (if c = CHR ''-'' then js_neg (unsigned_literal cs)
           else if c = CHR ''+'' then unsigned_literal cs
           else unsigned_literal (c # cs)))"

section \<open>Dates\<close>

text \<open>
  A \<open>Date\<close> object, read in local time as the source builds it: the calendar year, the
  month index (0 for January) and the day of the month. Time zones are not modelled.
\<close>

datatype jsdate = Date int int int

fun getFullYear :: "jsdate \<Rightarrow> int" where
  "getFullYear (Date y m d) = y"

fun getMonth :: "jsdate \<Rightarrow> int" where
  "getMonth (Date y m d) = m"

fun getDate :: "jsdate \<Rightarrow> int" where
  "getDate (Date y m d) = d"

definition isLeapYear :: "int \<Rightarrow> bool" where
  "isLeapYear y = (y mod 4 = 0 \<and> (y mod 100 \<noteq> 0 \<or> y mod 400 = 0))"

definition daysInMonth :: "int \<Rightarrow> int \<Rightarrow> int" where
  "daysInMonth y m =
     (if m = 1 then (if isLeapYear y then 29 else 28)
      else if m = 3 \<or> m = 5 \<or> m = 8 \<or> m = 10 then 30
      else 31)"

text \<open>
  \<open>new Date(year, monthIndex, day)\<close> accepts any integers: a month index outside 0 to 11
  moves the year, a day outside the month moves the month (day 0 is the last day of the
  month before), and a year from 0 to 99 means 1900 plus that year.
\<close>

function day_carry :: "int \<Rightarrow> int \<Rightarrow> int \<Rightarrow> jsdate" where
  "day_carry y m d =
     (if d < 1
      then day_carry (if m = 0 then y - 1 else y) (if m = 0 then 11 else m - 1)
             (d + daysInMonth (if m = 0 then y - 1 else y) (if m = 0 then 11 else m - 1))
      else if daysInMonth y m < d
      then day_carry (if m = 11 then y + 1 else y) (if m = 11 then 0 else m + 1)
             (d - daysInMonth y m)
      else Date y m d)"
  by pat_completeness auto
termination
  by (relation "measure (\<lambda>(y, m, d). if d < 1 then nat (1 - d) + 32 else nat d)")
     (auto simp: daysInMonth_def)

definition new_Date :: "int \<Rightarrow> int \<Rightarrow> int \<Rightarrow> jsdate" where
  "new_Date year monthIndex day =
     (let y = (if 0 \<le> year \<and> year \<le> 99 then 1900 + year else year)
      in day_carry (y + monthIndex div 12) (monthIndex mod 12) day)"

section \<open>The row transformer (controllers/importController)\<close>

subsection \<open>Text of the messages\<close>

definition Descricao :: string where
  "Descricao = ''Descri'' @ [CHR 0xE7, CHR 0xE3] @ ''o''"

definition Valor_invalido :: string where
  "Valor_invalido = ''Valor inv'' @ [CHR 0xE1] @ ''lido: ''"

definition Formato_de_data_invalido :: string where
  "Formato_de_data_invalido = ''Formato de data inv'' @ [CHR 0xE1] @ ''lido: ''"

definition Nao_autorizado :: string where
  "Nao_autorizado = ''N'' @ [CHR 0xE3] @ ''o autorizado''"

definition Upload_nao_encontrado :: string where
  "Upload_nao_encontrado = ''Upload n'' @ [CHR 0xE3] @ ''o encontrado ou expirado''"

definition Sessao_nao_encontrada :: string where
  "Sessao_nao_encontrada =
     ''Sess'' @ [CHR 0xE3] @ ''o de importa'' @ [CHR 0xE7, CHR 0xE3] @ ''o n'' @ [CHR 0xE3]
       @ ''o encontrada''"

definition Dados_invalidos :: string where
  "Dados_invalidos =
     ''Dados da transa'' @ [CHR 0xE7, CHR 0xE3] @ ''o inv'' @ [CHR 0xE1] @ ''lidos''"

subsection \<open>Dates of a row\<close>

definition digits_between :: "nat \<Rightarrow> nat \<Rightarrow> string \<Rightarrow> bool" where
  "digits_between lo hi s = (lo \<le> length s \<and> length s \<le> hi \<and> list_all isDigit s)"

text \<open>
  The pattern \<open>/^\d{1,2}\/\d{1,2}\/\d{n}$/\<close>: a digit is never a slash, so the pattern
  matches exactly the strings whose three parts between slashes have these shapes.
\<close>

definition matches_slash_date :: "nat \<Rightarrow> string \<Rightarrow> bool" where
  "matches_slash_date n s =
     (case js_split CHR ''/'' s of
        [a, b, c] \<Rightarrow> digits_between 1 2 a \<and> digits_between 1 2 b \<and> digits_between n n c
      | _ \<Rightarrow> False)"

text \<open>The pattern \<open>/^\d{4}-\d{2}-\d{2}$/\<close>.\<close>

definition matches_iso_date :: "string \<Rightarrow> bool" where
  "matches_iso_date s =
     (case js_split CHR ''-'' s of
        [a, b, c] \<Rightarrow> digits_between 4 4 a \<and> digits_between 2 2 b \<and> digits_between 2 2 c
      | _ \<Rightarrow> False)"

text \<open>
  \<open>parseDate\<close>. The cell is absent (\<open>None\<close>) or a string; the result is \<open>null\<close> (\<open>None\<close>)
  for an absent or empty cell, a date, or a thrown error with its message. \<open>Date_parse\<close>
  stands for the engine's \<open>new Date(string)\<close>, \<open>None\<close> when it yields an invalid date: the
  \<open>toISOString\<close> of the log line then throws a RangeError. The four tests are the
  source's, in its order.
\<close>

definition parseDate :: "(string \<Rightarrow> jsdate option) \<Rightarrow> string option \<Rightarrow> string + jsdate option" where
  "parseDate Date_parse dateStr =
     (case dateStr of
        None \<Rightarrow> Inr None
      | Some str \<Rightarrow>
          (if str = [] then Inr None
           else
             (let cleanDate = trim str; parts = js_split CHR ''/'' cleanDate
              in if matches_slash_date 2 cleanDate then
                   (let day = parts ! 0; month = parts ! 1; year = parts ! 2;
                        fullYear = parseInt year + 2000
                    in Inr (Some (new_Date fullYear (parseInt month - 1) (parseInt day))))
                 else if matches_slash_date 4 cleanDate then
                   (let day = parts ! 0; month = parts ! 1; year = parts ! 2
                    in Inr (Some (new_Date (parseInt year) (parseInt month - 1) (parseInt day))))
                 else if matches_iso_date cleanDate then
                   (case Date_parse cleanDate of
                      None \<Rightarrow> Inl ''Invalid time value''
                    | Some parsedDate \<Rightarrow> Inr (Some parsedDate))
                 else if matches_slash_date 4 cleanDate then
                   (let month = parts ! 0; day = parts ! 1; year = parts ! 2
                    in Inr (Some (new_Date (parseInt year) (parseInt month - 1) (parseInt day))))
                 else Inl (Formato_de_data_invalido @ str))))"

subsection \<open>Amounts of a row\<close>

text \<open>The text \<open>parseAmount\<close> hands to \<open>parseFloat\<close>.\<close>

definition cleanAmount :: "string \<Rightarrow> string" where
  "cleanAmount amountStr =
     (let c1 = filter (\<lambda>c. c \<noteq> CHR 0x22) amountStr;
          c2 = strip_currency c1;
          c3 = (if CHR ''.'' \<in> set c2 \<and> CHR '','' \<in> set c2
                then replace_first CHR '','' CHR ''.'' (filter (\<lambda>c. c \<noteq> CHR ''.'') c2)
                else if CHR '','' \<in> set c2 \<and> CHR ''.'' \<notin> set c2
                then replace_first CHR '','' CHR ''.'' c2
                else c2)
      in trim c3)"

definition parseAmount :: "string option \<Rightarrow> string + jsnum" where
  "parseAmount amountStr =
     (case amountStr of
        None \<Rightarrow> Inr (Fin 0)
      | Some str \<Rightarrow>
          (if str = [] then Inr (Fin 0)
           else (let amount = parseFloat (cleanAmount str)
                 in if isNaN amount then Inl (Valor_invalido @ str)
                    else Inr (Math_abs amount))))"

text \<open>Digit groups written with dots between them, as in \<open>1.234.567\<close>.\<close>

fun grouped :: "string list \<Rightarrow> string" where
  "grouped [] = []"
| "grouped [g] = g"
| "grouped (g # h # gs) = g @ CHR ''.'' # grouped (h # gs)"

definition parseBoolean :: "string option \<Rightarrow> bool" where
  "parseBoolean boolStr =
     (case boolStr of
        None \<Rightarrow> False
      | Some str \<Rightarrow>
          (if str = [] then False
           else (let lower = trim (toLowerCase str)
                 in lower = ''sim'' \<or> lower = ''yes'' \<or> lower = ''true'' \<or> lower = ''1'')))"

subsection \<open>Rows, mappings and transactions\<close>

text \<open>
  A row of the CSV parser: the cells by column name, in column order. A mapping names
  the column of each field or holds \<open>null\<close>; a look-up through \<open>null\<close> finds nothing (no
  column is called \<open>null\<close>).
\<close>

type_synonym row = "(string \<times> string) list"

record column_mapping =
  m_date :: "string option"
  m_description :: "string option"
  m_amount :: "string option"
  m_category :: "string option"
  m_payment_type :: "string option"
  m_installments :: "string option"
  m_repeat :: "string option"
  m_fixed :: "string option"

definition cell :: "row \<Rightarrow> string option \<Rightarrow> string option" where
  "cell r col = (case col of None \<Rightarrow> None | Some c \<Rightarrow> map_of r c)"

text \<open>\<open>x || d\<close> on a cell: the default when the cell is absent or empty.\<close>

definition or_default :: "string option \<Rightarrow> string \<Rightarrow> string" where
  "or_default x d = (case x of None \<Rightarrow> d | Some s \<Rightarrow> if s = [] then d else s)"

definition truthy :: "string option \<Rightarrow> bool" where
  "truthy x = (case x of None \<Rightarrow> False | Some s \<Rightarrow> s \<noteq> [])"

datatype bill_type = income | expense

definition determineTypeGBMoney :: "row \<Rightarrow> column_mapping \<Rightarrow> bill_type" where
  "determineTypeGBMoney r mapping =
     (let originalAmount = cell r (m_amount mapping)
      in if truthy originalAmount \<and> startsWith (the originalAmount) ''-'' then expense
         else
           (let description = toLowerCase (or_default (cell r (m_description mapping)) [])
            in if js_includes description ''pagamento recebido'' \<or>
                  js_includes description ''pix recebido'' \<or>
                  js_includes description ''ted recebido'' \<or>
                  js_includes description (''dep'' @ [CHR 0xF3] @ ''sito'')
               then income
               else expense))"

definition mapCategory :: "string \<Rightarrow> (string \<rightharpoonup> string) \<Rightarrow> string option" where
  "mapCategory categoryStr categoryMapping =
     (if categoryStr = [] then None
      else (case categoryMapping categoryStr of
              None \<Rightarrow> Some categoryStr
            | Some mapped \<Rightarrow> if mapped = [] then Some categoryStr else Some mapped))"

text \<open>
  The owner of a transaction: the ObjectId of the user id when the id is a valid one,
  a freshly generated ObjectId otherwise.
\<close>

datatype object_id = ObjectId string | FreshObjectId

record transaction =
  user_id :: object_id
  buy_date :: "jsdate option"
  bill_name :: string
  bill_value :: jsnum
  bill_category :: "string option"
  bill_type :: bill_type
  payment_type :: string
  repeat :: bool
  installments :: string
  fixed :: bool

text \<open>
  What the transformer needs from the engine and the libraries: \<open>new Date(string)\<close> and
  \<open>ObjectId.isValid\<close>.
\<close>

record engine =
  Date_parse :: "string \<Rightarrow> jsdate option"
  isValidObjectId :: "string \<Rightarrow> bool"

definition mapRowToTransaction ::
  "engine \<Rightarrow> row \<Rightarrow> column_mapping \<Rightarrow> (string \<rightharpoonup> string) \<Rightarrow> string \<Rightarrow> string + transaction" where
  "mapRowToTransaction eng r mapping categoryMapping uid =
     (let validUserId = (if isValidObjectId eng uid then ObjectId uid else FreshObjectId)
      in case parseDate (Date_parse eng) (cell r (m_date mapping)) of
           Inl e \<Rightarrow> Inl e
         | Inr d \<Rightarrow>
             (case parseAmount (cell r (m_amount mapping)) of
                Inl e \<Rightarrow> Inl e
              | Inr v \<Rightarrow>
                  Inr \<lparr>user_id = validUserId,
                        buy_date = d,
                        bill_name = or_default (cell r (m_description mapping)) [],
                        bill_value = v,
                        bill_category =
                          mapCategory (or_default (cell r (m_category mapping)) []) categoryMapping,
                        bill_type = determineTypeGBMoney r mapping,
                        payment_type =
                          (if truthy (m_payment_type mapping)
                           then or_default (cell r (m_payment_type mapping)) ''Importado''
                           else ''Nubank''),
                        repeat =
                          (if truthy (m_repeat mapping) then parseBoolean (cell r (m_repeat mapping))
                           else False),
                        installments =
                          (if truthy (m_installments mapping)
                           then or_default (cell r (m_installments mapping)) ''1/1''
                           else ''1/1''),
                        fixed =
                          (if truthy (m_fixed mapping) then parseBoolean (cell r (m_fixed mapping))
                           else False)\<rparr>))"

definition validateTransaction :: "transaction \<Rightarrow> bool" where
  "validateTransaction t =
     (buy_date t \<noteq> None \<and> bill_name t \<noteq> [] \<and> trim (bill_name t) \<noteq> [] \<and>
      \<not> isNaN (bill_value t) \<and> (bill_type t = income \<or> bill_type t = expense))"

datatype import_type = gbmoney_csv | nubank | generic_csv

definition isValidDataRow :: "row \<Rightarrow> import_type \<Rightarrow> bool" where
  "isValidDataRow data ty =
     (if ty = gbmoney_csv
      then truthy (map_of data Descricao) \<and> truthy (map_of data ''Categoria'') \<and>
           truthy (map_of data ''Data'') \<and> truthy (map_of data ''Valor'') \<and>
           \<not> js_includes (the (map_of data Descricao)) ''Total'' \<and>
           \<not> js_includes (the (map_of data Descricao)) ''Valores base''
      else list_ex (\<lambda>v. v \<noteq> [] \<and> trim v \<noteq> []) (map snd data))"

subsection \<open>Column mappings\<close>

definition findColumn :: "string list \<Rightarrow> string list \<Rightarrow> string option" where
  "findColumn headers possibleNames =
     List.find (\<lambda>header. list_ex (\<lambda>name. js_includes (toLowerCase header) (toLowerCase name))
                            possibleNames) headers"

definition generateColumnMapping :: "string list \<Rightarrow> import_type \<Rightarrow> column_mapping" where
  "generateColumnMapping headers ty =
     (case ty of
        gbmoney_csv \<Rightarrow>
          \<lparr>m_date = Some ''Data'', m_description = Some Descricao, m_amount = Some ''Valor'',
           m_category = Some ''Categoria'', m_payment_type = Some ''Forma de Pagamento'',
           m_installments = Some ''Parcelas'', m_repeat = Some ''Repete'', m_fixed = Some ''Fixa''\<rparr>
      | nubank \<Rightarrow>
          \<lparr>m_date = Some ''date'', m_description = Some ''title'', m_amount = Some ''amount'',
           m_category = findColumn headers [''categoria'', ''category''],
           m_payment_type = None, m_installments = None, m_repeat = None, m_fixed = None\<rparr>
      | generic_csv \<Rightarrow>
          \<lparr>m_date = findColumn headers [''data'', ''date'', ''dt''],
           m_description =
             findColumn headers
               [''descri'' @ [CHR 0xE7, CHR 0xE3] @ ''o'', ''description'', ''desc'', ''historico''],
           m_amount = findColumn headers [''valor'', ''amount'', ''value'', ''vlr''],
           m_category = findColumn headers [''categoria'', ''category'', ''cat''],
           m_payment_type = None, m_installments = None, m_repeat = None, m_fixed = None\<rparr>)"

section \<open>The preview and status operations\<close>

record preview =
  pv_type :: import_type
  pv_headers :: "string list"
  pv_sample :: "row list"
  pv_totalRows :: nat
  pv_isLargeFile :: bool
  pv_mapping :: column_mapping

record upload_data =
  ud_filename :: string
  ud_tempPath :: string
  ud_preview :: preview
  ud_fileSize :: nat
  ud_createdAt :: int
  ud_userId :: string

record status_reply =
  sr_status :: status
  sr_progress :: jsnum
  sr_processedRows :: nat
  sr_totalRows :: nat
  sr_successfulRows :: nat
  sr_errorRows :: nat
  sr_estimatedTimeRemaining :: "jsnum option"
  sr_processingSpeed :: jsnum
  sr_errors :: "error_entry list"

datatype reply_body =
    error_body string
  | preview_body string preview string
  | status_body status_reply
  | started_body string string

record reply =
  statusCode :: nat
  body :: reply_body

text \<open>\<open>getPreview\<close>: the temporary storage, the id of the request and the user of its token.\<close>

definition getPreview :: "(string \<rightharpoonup> upload_data) \<Rightarrow> string \<Rightarrow> string \<Rightarrow> reply" where
  "getPreview tempStorage uid request_user_id =
     (case tempStorage uid of
        None \<Rightarrow> \<lparr>statusCode = 404, body = error_body Upload_nao_encontrado\<rparr>
      | Some uploadData \<Rightarrow>
          (if ud_userId uploadData \<noteq> request_user_id
           then \<lparr>statusCode = 403, body = error_body Nao_autorizado\<rparr>
           else \<lparr>statusCode = 200,
                 body = preview_body uid (ud_preview uploadData) (ud_filename uploadData)\<rparr>))"

text \<open>The handler of \<open>GET /import/status/:uploadId\<close> (routes).\<close>

definition importStatus :: "tracker \<Rightarrow> string \<Rightarrow> string \<Rightarrow> reply" where
  "importStatus tr uid request_user_id =
     (case getSessionStatus tr uid of
        None \<Rightarrow> \<lparr>statusCode = 404, body = error_body Sessao_nao_encontrada\<rparr>
      | Some s \<Rightarrow>
          (if userId s \<noteq> request_user_id
           then \<lparr>statusCode = 403, body = error_body Nao_autorizado\<rparr>
           else \<lparr>statusCode = 200,
                 body = status_body
                   \<lparr>sr_status = status s, sr_progress = progress s,
                    sr_processedRows = processedRows s, sr_totalRows = totalRows s,
                    sr_successfulRows = successfulRows s, sr_errorRows = errorRows s,
                    sr_estimatedTimeRemaining = estimatedTimeRemaining s,
                    sr_processingSpeed = processingSpeed s,
                    sr_errors = slice_last 10 (errors s)\<rparr>\<rparr>))"

section \<open>Batch persistence\<close>

text \<open>
  What a rejected database call throws: an error object with its message, or a value
  that is \<open>null\<close> or \<open>undefined\<close>. Reading \<open>.message\<close> of the latter throws a TypeError.
\<close>

datatype thrown = ErrorObject string | Nullish

definition TypeError_message :: string where
  "TypeError_message = ''Cannot read properties of undefined''"

text \<open>
  Reading \<open>e.message\<close>: the message (\<open>Inr\<close>), or the message of the TypeError that the
  reading throws (\<open>Inl\<close>).
\<close>

definition message_of :: "thrown \<Rightarrow> string + string" where
  "message_of e = (case e of ErrorObject m \<Rightarrow> Inr m | Nullish \<Rightarrow> Inl TypeError_message)"

text \<open>A saved document: the identifier the database gave it, and the transaction.\<close>

datatype doc = Doc nat transaction

text \<open>
  The collaborators of the import: the engine, the bills model over a database state
  \<open>'db\<close> (\<open>insertMany\<close> with \<open>ordered: false\<close>, \<open>countDocuments\<close>, \<open>create\<close>), and the clock,
  read once for each row of the stream (\<open>clock n\<close> while row \<open>n\<close> is handled).
\<close>

record 'db environment =
  env_engine :: engine
  insertMany :: "'db \<Rightarrow> transaction list \<Rightarrow> (thrown + doc list) \<times> 'db"
  countDocuments :: "'db \<Rightarrow> thrown + nat"
  create :: "'db \<Rightarrow> transaction \<Rightarrow> (thrown + doc) \<times> 'db"
  clock :: "nat \<Rightarrow> int"

text \<open>The state the import works on: the database, the tracker, the temporary storage and
  the names of the files it removed.\<close>

record 'db server =
  db :: 'db
  tracker :: tracker
  tempStorage :: "string \<rightharpoonup> upload_data"
  unlinked :: "string list"

definition digit_char :: "nat \<Rightarrow> char" where
  "digit_char n = ''0123456789'' ! n"

function show_nat :: "nat \<Rightarrow> string" where
  "show_nat n = (if n < 10 then [digit_char n] else show_nat (n div 10) @ [digit_char (n mod 10)])"
  by pat_completeness auto
termination
  by (relation "measure id") auto

declare show_nat.simps [simp del]

definition Erro_ao_salvar :: string where
  "Erro_ao_salvar = ''Erro ao salvar transa'' @ [CHR 0xE7, CHR 0xE3] @ ''o''"

definition Erro_nao_tratado :: string where
  "Erro_nao_tratado =
     ''Erro n'' @ [CHR 0xE3] @ ''o tratado na transa'' @ [CHR 0xE7, CHR 0xE3] @ ''o ''"

definition Erro_critico :: string where
  "Erro_critico = ''Erro cr'' @ [CHR 0xED] @ ''tico no lote: ''"

text \<open>
  \<open>billsController.createBillData\<close>: whatever \<open>create\<close> throws is wrapped in a new error
  (a TypeError, wrapped by nothing, when the thrown value has no \<open>.message\<close> to read).
\<close>

definition createBillData ::
  "'db environment \<Rightarrow> 'db \<Rightarrow> transaction \<Rightarrow> (thrown + doc) \<times> 'db" where
  "createBillData env d billData =
     (case create env d billData of
        (Inr savedBill, d1) \<Rightarrow> (Inr savedBill, d1)
      | (Inl error, d1) \<Rightarrow>
          (case message_of error of
             Inl typeError \<Rightarrow> (Inl (ErrorObject typeError), d1)
           | Inr m \<Rightarrow> (Inl (ErrorObject (Erro_ao_salvar @ '': '' @ m)), d1)))"

text \<open>
  How one promise of the fallback settles: fulfilled with \<open>{success: true, data}\<close> or with
  \<open>{success: false, error}\<close>, or rejected.
\<close>

datatype settled = FulfilledSaved doc | FulfilledFailed thrown | Rejected thrown

text \<open>
  One promise of the fallback, for the record at \<open>index\<close> (counted from 0). A failure
  that is caught is reported to the tracker; if the \<open>catch\<close> block itself throws, the
  promise is rejected.
\<close>

definition insert_one ::
  "'db environment \<Rightarrow> int \<Rightarrow> string \<Rightarrow> nat \<Rightarrow> transaction \<Rightarrow> 'db server \<Rightarrow> settled \<times> 'db server" where
  "insert_one env now uid index t w =
     (case createBillData env (db w) t of
        (Inr saved, d1) \<Rightarrow> (FulfilledSaved saved, w\<lparr>db := d1\<rparr>)
      | (Inl error, d1) \<Rightarrow>
          (case message_of error of
             Inl typeError \<Rightarrow> (Rejected (ErrorObject typeError), w\<lparr>db := d1\<rparr>)
           | Inr m \<Rightarrow>
               (FulfilledFailed error,
                w\<lparr>db := d1,
                  tracker := addError (tracker w) now uid
                    (Erro_ao_salvar @ '' '' @ show_nat (index + 1) @ '': '' @ m) None\<rparr>)))"

text \<open>
  The individual inserts of the fallback, in index order (an interleaving of the
  concurrent promises).
\<close>

fun insert_individually ::
  "'db environment \<Rightarrow> int \<Rightarrow> string \<Rightarrow> nat \<Rightarrow> transaction list \<Rightarrow> 'db server \<Rightarrow>
   settled list \<times> 'db server" where
  "insert_individually env now uid index [] w = ([], w)"
| "insert_individually env now uid index (t # ts) w =
     (let (outcome, w1) = insert_one env now uid index t w;
          (outcomes, w2) = insert_individually env now uid (index + 1) ts w1
      in (outcome # outcomes, w2))"

text \<open>The running counts of a batch: \<open>successCount\<close> and \<open>errorCount\<close>.\<close>

record batch_counts =
  successCount :: nat
  errorCount :: nat

text \<open>\<open>result.reason?.message || 'Erro desconhecido'\<close>.\<close>

definition reason_message :: "thrown \<Rightarrow> string" where
  "reason_message reason =
     (case reason of
        Nullish \<Rightarrow> ''Erro desconhecido''
      | ErrorObject m \<Rightarrow> if m = [] then ''Erro desconhecido'' else m)"

text \<open>The \<open>settled.forEach\<close> of the fallback: its callback, and the loop.\<close>

definition count_one ::
  "int \<Rightarrow> string \<Rightarrow> nat \<Rightarrow> settled \<Rightarrow> tracker \<times> doc list \<times> batch_counts \<Rightarrow>
   tracker \<times> doc list \<times> batch_counts" where
  "count_one now uid index r acc =
     (case acc of (tr, results, c) \<Rightarrow>
        (case r of
           FulfilledSaved d \<Rightarrow> (tr, results @ [d], c\<lparr>successCount := successCount c + 1\<rparr>)
         | FulfilledFailed e \<Rightarrow> (tr, results, c\<lparr>errorCount := errorCount c + 1\<rparr>)
         | Rejected reason \<Rightarrow>
             (addError tr now uid
                (Erro_nao_tratado @ show_nat (index + 1) @ '': '' @ reason_message reason) None,
              results, c\<lparr>errorCount := errorCount c + 1\<rparr>)))"

fun count_settled ::
  "int \<Rightarrow> string \<Rightarrow> nat \<Rightarrow> settled list \<Rightarrow> tracker \<times> doc list \<times> batch_counts \<Rightarrow>
   tracker \<times> doc list \<times> batch_counts" where
  "count_settled now uid index [] acc = acc"
| "count_settled now uid index (r # rs) acc =
     count_settled now uid (index + 1) rs (count_one now uid index r acc)"

text \<open>
  \<open>processBatchStreamingAsync\<close>. The bulk insert comes first; when it (or the count of
  documents after it) throws, every record is inserted individually; when the fallback
  block throws (its first statement reads \<open>bulkError.message\<close>), the outer \<open>catch\<close> sets
  \<open>errorCount\<close> to the length of the batch and leaves \<open>successCount\<close> as it is. The result
  is the state, the \<open>results\<close> array and the counts.
\<close>

definition processBatchStreamingAsync ::
  "'db environment \<Rightarrow> int \<Rightarrow> string \<Rightarrow> transaction list \<Rightarrow> doc list \<Rightarrow> 'db server \<Rightarrow>
   'db server \<times> doc list \<times> batch_counts" where
  "processBatchStreamingAsync env now uid batch results w =
     (let c0 = \<lparr>successCount = 0, errorCount = 0\<rparr>;
          (bulk, d1) = insertMany env (db w) batch;
          w1 = w\<lparr>db := d1\<rparr>;
          attempt = (case bulk of
                       Inl bulkError \<Rightarrow> Inl bulkError
                     | Inr saved \<Rightarrow>
                         (case countDocuments env d1 of
                            Inl bulkError \<Rightarrow> Inl bulkError
                          | Inr n \<Rightarrow> Inr saved))
      in case attempt of
           Inr saved \<Rightarrow>
             (let c1 = c0\<lparr>successCount := length saved\<rparr>;
                  c2 = (if successCount c1 < length batch
                        then c1\<lparr>errorCount := length batch - successCount c1\<rparr> else c1)
              in (w1, results @ saved, c2))
         | Inl bulkError \<Rightarrow>
             (case message_of bulkError of
                Inl error_message \<Rightarrow>
                  (w1\<lparr>tracker := addError (tracker w1) now uid
                       (Erro_critico @ error_message) None\<rparr>,
                   results, c0\<lparr>errorCount := length batch\<rparr>)
              | Inr m \<Rightarrow>
                  (let (outcomes, w2) = insert_individually env now uid 0 batch w1;
                       (tr, results1, c1) = count_settled now uid 0 outcomes (tracker w2, results, c0)
                   in (w2\<lparr>tracker := tr\<rparr>, results1, c1))))"

text \<open>The contract of \<open>insertMany\<close>: the documents it returns are documents of the batch.\<close>

definition insertMany_contract :: "'db environment \<Rightarrow> bool" where
  "insertMany_contract env =
     (\<forall>d batch saved d1. insertMany env d batch = (Inr saved, d1) \<longrightarrow> length saved \<le> length batch)"

section \<open>The streaming import\<close>

text \<open>The local variables of \<open>processImportWithStreaming\<close>.\<close>

record locals =
  p_results :: "doc list"
  processedCount :: nat
  successfulCount :: nat
  p_errorCount :: nat
  p_currentBatch :: "transaction list"

definition BATCH_SIZE :: nat where
  "BATCH_SIZE = 100"

definition UPDATE_FREQUENCY :: nat where
  "UPDATE_FREQUENCY = 50"

definition counts_update :: "locals \<Rightarrow> nat option \<Rightarrow> status option \<Rightarrow> update" where
  "counts_update v batchNo st =
     \<lparr>upd_processedRows = Some (processedCount v), upd_successfulRows = Some (successfulCount v),
      upd_errorRows = Some (p_errorCount v), upd_currentBatch = batchNo, upd_status = st\<rparr>"

text \<open>
  One run of a batch from the import: the batch is persisted and the counts of the
  result are added to the running counts.
\<close>

definition flush_batch ::
  "'db environment \<Rightarrow> int \<Rightarrow> string \<Rightarrow> locals \<times> 'db server \<Rightarrow> locals \<times> 'db server" where
  "flush_batch env now uid st =
     (let (v, w) = st;
          (w1, results1, batchResults) =
             processBatchStreamingAsync env now uid (p_currentBatch v) (p_results v) w
      in (v\<lparr>p_results := results1,
            successfulCount := successfulCount v + successCount batchResults,
            p_errorCount := p_errorCount v + errorCount batchResults\<rparr>, w1))"

text \<open>
  The \<open>transform\<close> of the processing stream, for one row. An error thrown while the row
  is mapped is caught, counted and reported with its message and the row number.
\<close>

definition transform ::
  "'db environment \<Rightarrow> upload_data \<Rightarrow> column_mapping \<Rightarrow> (string \<rightharpoonup> string) \<Rightarrow> string \<Rightarrow> string \<Rightarrow>
   row \<Rightarrow> locals \<times> 'db server \<Rightarrow> locals \<times> 'db server" where
  "transform env uploadData mapping categoryMapping user uid r st =
     (let (v0, w) = st;
          v = v0\<lparr>processedCount := processedCount v0 + 1\<rparr>;
          now = clock env (processedCount v)
      in if isValidDataRow r (pv_type (ud_preview uploadData)) then
           (case mapRowToTransaction (env_engine env) r mapping categoryMapping user of
              Inl error_message \<Rightarrow>
                (v\<lparr>p_errorCount := p_errorCount v + 1\<rparr>,
                 w\<lparr>tracker := addError (tracker w) now uid error_message (Some (processedCount v))\<rparr>)
            | Inr t \<Rightarrow>
                (if validateTransaction t then
                   (let v1 = v\<lparr>p_currentBatch := p_currentBatch v @ [t]\<rparr>
                    in if BATCH_SIZE \<le> length (p_currentBatch v1) then
                         (let (v2, w1) = flush_batch env now uid (v1, w);
                              v3 = v2\<lparr>p_currentBatch := []\<rparr>
                          in (v3, w1\<lparr>tracker := updateProgress (tracker w1) now uid
                                 (counts_update v3 (Some (processedCount v3 div BATCH_SIZE)) None)\<rparr>))
                       else if processedCount v1 mod UPDATE_FREQUENCY = 0 then
                         (v1, w\<lparr>tracker := updateProgress (tracker w) now uid
                                 (counts_update v1 None None)\<rparr>)
                       else (v1, w))
                 else
                   (v\<lparr>p_errorCount := p_errorCount v + 1\<rparr>,
                    w\<lparr>tracker := addError (tracker w) now uid Dados_invalidos
                          (Some (processedCount v))\<rparr>)))
         else (v, w))"

text \<open>The staged file is removed and the upload leaves the temporary storage.\<close>

definition cleanup :: "upload_data \<Rightarrow> string \<Rightarrow> 'db server \<Rightarrow> 'db server" where
  "cleanup uploadData uid w =
     w\<lparr>unlinked := unlinked w @ [ud_tempPath uploadData],
       tempStorage := (tempStorage w)(uid := None)\<rparr>"

definition final_message :: "nat \<Rightarrow> nat \<Rightarrow> string" where
  "final_message s p =
     show_nat s @ '' transa'' @ [CHR 0xE7, CHR 0xF5] @ ''es importadas com sucesso de ''
       @ show_nat p @ '' processadas''"

text \<open>
  \<open>processImportWithStreaming\<close>. The stream of the staged file is the list of its rows and
  how it ended: at its end (\<open>None\<close>) or with an error after these rows (its message). When
  it reaches its end the last batch is persisted, the final update is sent with the
  status \<open>finalizing\<close>, and the final result is returned; an error of the stream is thrown
  again after the clean-up.
\<close>

definition processImportWithStreaming ::
  "'db environment \<Rightarrow> upload_data \<Rightarrow> column_mapping \<Rightarrow> (string \<rightharpoonup> string) \<Rightarrow> string \<Rightarrow> string \<Rightarrow>
   row list \<Rightarrow> string option \<Rightarrow> 'db server \<Rightarrow> (string + import_result) \<times> 'db server" where
  "processImportWithStreaming env uploadData mapping categoryMapping user uid rows streamError w0 =
     (let v0 = \<lparr>p_results = [], processedCount = 0, successfulCount = 0, p_errorCount = 0,
                p_currentBatch = []\<rparr>;
          (v, w) = fold (transform env uploadData mapping categoryMapping user uid) rows (v0, w0)
      in case streamError of
           Some error \<Rightarrow> (Inl error, cleanup uploadData uid w)
         | None \<Rightarrow>
             (let now = clock env (processedCount v + 1);
                  (v1, w1) = (if p_currentBatch v \<noteq> [] then flush_batch env now uid (v, w)
                              else (v, w));
                  w2 = w1\<lparr>tracker := updateProgress (tracker w1) now uid
                            (counts_update v1 None (Some finalizing))\<rparr>;
                  finalResult =
                    \<lparr>success = True, imported = Some (successfulCount v1),
                     result_errors = Some (p_errorCount v1), result_total = Some (processedCount v1),
                     result_message = Some (final_message (successfulCount v1) (processedCount v1)),
                     result_error = None\<rparr>
              in (Inr finalResult, cleanup uploadData uid w2)))"

text \<open>
  \<open>confirmImport\<close>, with the import it starts run to its end: the reply, and the state once
  \<open>completeImportSession\<close> has been called with the result or with the error. The body of
  the request holds a mapping and a category mapping, each optional.
\<close>

definition confirmImport ::
  "'db environment \<Rightarrow> 'db server \<Rightarrow> string \<Rightarrow> column_mapping option \<Rightarrow> (string \<rightharpoonup> string) option \<Rightarrow>
   string \<Rightarrow> row list \<Rightarrow> string option \<Rightarrow> reply \<times> 'db server" where
  "confirmImport env w uid body_mapping body_categoryMapping request_user_id rows streamError =
     (case tempStorage w uid of
        None \<Rightarrow> (\<lparr>statusCode = 404, body = error_body Upload_nao_encontrado\<rparr>, w)
      | Some uploadData \<Rightarrow>
          (if ud_userId uploadData \<noteq> request_user_id
           then (\<lparr>statusCode = 403, body = error_body Nao_autorizado\<rparr>, w)
           else
             (let mapping = (case body_mapping of
                               None \<Rightarrow> pv_mapping (ud_preview uploadData)
                             | Some m \<Rightarrow> m);
                  categoryMapping = (case body_categoryMapping of
                                       None \<Rightarrow> Map.empty
                                     | Some c \<Rightarrow> c);
                  (tr1, s) = startImportSession (tracker w) (clock env 0) uid request_user_id
                               (pv_totalRows (ud_preview uploadData)) (ud_filename uploadData);
                  (outcome, w2) = processImportWithStreaming env uploadData mapping categoryMapping
                                    request_user_id uid rows streamError (w\<lparr>tracker := tr1\<rparr>);
                  now = clock env (length rows + 2);
                  res = (case outcome of
                           Inr finalResult \<Rightarrow> finalResult
                         | Inl error \<Rightarrow>
                             \<lparr>success = False, imported = None, result_errors = None,
                              result_total = None, result_message = None,
                              result_error = Some error\<rparr>)
              in (\<lparr>statusCode = 200, body = started_body uid (uploadId s)\<rparr>,
                  w2\<lparr>tracker := completeImportSession (tracker w2) now uid res\<rparr>))))"

text \<open>
  The row count of the preview (\<open>totalRows\<close>): the rows of the previewed text that are
  valid data rows. The preview reads at most 200 rows.
\<close>

definition preview_rowCount :: "row list \<Rightarrow> import_type \<Rightarrow> nat" where
  "preview_rowCount rows ty = length (filter (\<lambda>r. isValidDataRow r ty) (take 200 rows))"

text \<open>The session of an upload id is registered, with this total of rows.\<close>

definition keeps :: "string \<Rightarrow> nat \<Rightarrow> tracker \<Rightarrow> bool" where
  "keeps uid n tr = (case importSessions tr uid of None \<Rightarrow> False | Some s \<Rightarrow> totalRows s = n)"

text \<open>The percentage \<open>updateProgress\<close> computes from the processed rows and the total.\<close>

definition percent :: "nat \<Rightarrow> nat \<Rightarrow> jsnum" where
  "percent p n = Math_round (js_mul (js_div (num p) (num n)) (Fin 100))"

text \<open>
  The progress values of the messages handed to the sockets, in the order of sending,
  and what the import maintains for a session of \<open>n\<close> rows in total while it has counted
  \<open>p\<close> rows: the session is registered, its progress is the percentage of its processed
  rows, which are at most \<open>p\<close>, and no message sent so far shows a larger progress.
\<close>

definition progress_trace :: "tracker \<Rightarrow> jsnum list" where
  "progress_trace tr = map (\<lambda>m. progress (msg_session (snd m))) (delivered tr)"

definition steady :: "string \<Rightarrow> nat \<Rightarrow> nat \<Rightarrow> tracker \<Rightarrow> bool" where
  "steady uid n p tr =
     (case importSessions tr uid of
        None \<Rightarrow> False
      | Some s \<Rightarrow>
          totalRows s = n \<and> processedRows s \<le> p \<and>
          progress s = percent (processedRows s) n \<and>
          sorted_wrt js_le (progress_trace tr) \<and>
          list_all (\<lambda>x. js_le x (percent (processedRows s) n)) (progress_trace tr))"

section \<open>Sample inputs\<close>

text \<open>A session as \<open>startImportSession\<close> registers it, and a tracker that holds it.\<close>

definition sample_session :: session where
  "sample_session =
     \<lparr>uploadId = ''u1'', userId = ''alice'', filename = ''f.csv'', totalRows = 2,
      processedRows = 0, successfulRows = 0, errorRows = 0, errors = [],
      startTime = 0, status = processing, currentBatch = 0,
      progress = Fin 0, estimatedTimeRemaining = None, processingSpeed = Fin 0,
      endTime = None, duration = None, result = None\<rparr>"

definition sample_tracker :: tracker where
  "sample_tracker =
     \<lparr>clients = Map.empty, importSessions = [''u1'' \<mapsto> sample_session],
      delivered = [], deletionTimers = []\<rparr>"

text \<open>An upload of user \<open>alice\<close> in the temporary storage.\<close>

definition sample_preview :: preview where
  "sample_preview =
     \<lparr>pv_type = generic_csv, pv_headers = [''Data'', ''Valor''], pv_sample = [],
      pv_totalRows = 2, pv_isLargeFile = False,
      pv_mapping = generateColumnMapping [''Data'', ''Valor''] generic_csv\<rparr>"

definition sample_upload :: upload_data where
  "sample_upload =
     \<lparr>ud_filename = ''f.csv'', ud_tempPath = ''temp/import_u1.csv'', ud_preview = sample_preview,
      ud_fileSize = 64, ud_createdAt = 0, ud_userId = ''alice''\<rparr>"

text \<open>
  An import: collaborators over a database that is a counter of the saved documents
  (the bulk insert is a parameter; \<open>create\<close> refuses the bill named \<open>dup\<close>), a mapping, a
  staged file of three rows of which the second has empty cells only, and the server
  that holds it for user \<open>alice\<close>.
\<close>

definition sample_env :: "(transaction list \<Rightarrow> thrown + doc list) \<Rightarrow> nat environment" where
  "sample_env bulk =
     \<lparr>env_engine = \<lparr>Date_parse = (\<lambda>_. None), isValidObjectId = (\<lambda>_. True)\<rparr>,
      insertMany = (\<lambda>d batch. (bulk batch, d + length batch)),
      countDocuments = (\<lambda>d. Inr d),
      create = (\<lambda>d t. if bill_name t = ''dup'' then (Inl (ErrorObject ''duplicate key''), d)
                       else (Inr (Doc d t), d + 1)),
      clock = (\<lambda>n. 1000 * int n)\<rparr>"

definition bulk_ok :: "transaction list \<Rightarrow> thrown + doc list" where
  "bulk_ok batch = Inr (map (Doc 0) batch)"

definition sample_mapping :: column_mapping where
  "sample_mapping =
     \<lparr>m_date = Some ''Data'', m_description = Some ''Nome'', m_amount = Some ''Valor'',
      m_category = None, m_payment_type = None, m_installments = None, m_repeat = None,
      m_fixed = None\<rparr>"

definition sample_rows :: "row list" where
  "sample_rows =
     [[(''Data'', ''5/3/24''), (''Nome'', ''Mercado''), (''Valor'', ''-50,00'')],
      [(''Data'', []), (''Nome'', []), (''Valor'', [])],
      [(''Data'', ''6/3/24''), (''Nome'', ''Padaria''), (''Valor'', ''12,50'')]]"

definition sample_staged :: upload_data where
  "sample_staged =
     \<lparr>ud_filename = ''f.csv'', ud_tempPath = ''temp/import_u1.csv'',
      ud_preview = \<lparr>pv_type = generic_csv, pv_headers = [''Data'', ''Nome'', ''Valor''],
                     pv_sample = sample_rows,
                     pv_totalRows = preview_rowCount sample_rows generic_csv,
                     pv_isLargeFile = False, pv_mapping = sample_mapping\<rparr>,
      ud_fileSize = 64, ud_createdAt = 0, ud_userId = ''alice''\<rparr>"

definition sample_server :: "nat server" where
  "sample_server =
     \<lparr>db = 0,
      tracker = \<lparr>clients = Map.empty, importSessions = Map.empty, delivered = [],
                 deletionTimers = []\<rparr>,
      tempStorage = [''u1'' \<mapsto> sample_staged], unlinked = []\<rparr>"

text \<open>Bulk inserts that throw an error and a nullish value, and a valid transaction by name.\<close>

definition bulk_fails :: "transaction list \<Rightarrow> thrown + doc list" where
  "bulk_fails batch = Inl (ErrorObject ''E11000 duplicate key'')"

definition bulk_nullish :: "transaction list \<Rightarrow> thrown + doc list" where
  "bulk_nullish batch = Inl Nullish"

definition sample_tx :: "string \<Rightarrow> transaction" where
  "sample_tx name =
     \<lparr>user_id = ObjectId ''alice'', buy_date = Some (Date 2024 2 5), bill_name = name,
      bill_value = Fin 50, bill_category = None, bill_type = expense, payment_type = ''Nubank'',
      repeat = False, installments = ''1/1'', fixed = False\<rparr>"

text \<open>
  The server once \<open>confirmImport\<close> has registered the session of the staged file, and a
  file with a fourth row whose date cannot be parsed.
\<close>

definition started_server :: "nat server" where
  "started_server =
     sample_server\<lparr>tracker :=
       fst (startImportSession (tracker sample_server) 0 ''u1'' ''alice''
              (pv_totalRows (ud_preview sample_staged)) (ud_filename sample_staged))\<rparr>"

definition rows_with_error :: "row list" where
  "rows_with_error =
     sample_rows @ [[(''Data'', ''ontem''), (''Nome'', ''Feira''), (''Valor'', ''7,00'')]]"

text \<open>The server with an open socket of user \<open>alice\<close> subscribed.\<close>

definition watched_server :: "nat server" where
  "watched_server =
     sample_server\<lparr>tracker :=
       (tracker sample_server)\<lparr>clients :=
          [''alice'' \<mapsto> [\<lparr>ws_id = 1, ws_userId = Some ''alice'', ws_open = True,
                          ws_send_throws = False\<rparr>]]\<rparr>\<rparr>"

text \<open>
  A row whose amount is not a number, and the local variables of an import before its
  first row.
\<close>

definition bad_amount_row :: row where
  "bad_amount_row = [(''Data'', ''5/3/24''), (''Nome'', ''Mercado''), (''Valor'', ''abc'')]"

definition no_rows_yet :: locals where
  "no_rows_yet =
     \<lparr>p_results = [], processedCount = 0, successfulCount = 0, p_errorCount = 0,
      p_currentBatch = []\<rparr>"

text \<open>A row with two spaces as its amount and no other text.\<close>

definition blank_amount_row :: row where
  "blank_amount_row = [(''Data'', []), (''Nome'', []), (''Valor'', ''  '')]"

section \<open>Properties of the tracker\<close>

lemma importSessions_removeClient [simp]:
  "importSessions (removeClient tr ws) = importSessions tr"
  by (simp add: removeClient_def Let_def split: option.splits)

lemma importSessions_send_to [simp]:
  "importSessions (send_to msg ws tr) = importSessions tr"
  by (simp add: send_to_def)

lemma importSessions_fold_send_to [simp]:
  "importSessions (fold (send_to msg) wss tr) = importSessions tr"
  by (induction wss arbitrary: tr) simp_all

lemma importSessions_broadcastToUser [simp]:
  "importSessions (broadcastToUser tr u msg) = importSessions tr"
  by (simp add: broadcastToUser_def split: option.splits)

lemma errors_recompute [simp]: "errors (recompute now s) = errors s"
  by (simp add: recompute_def Let_def)

lemma errors_assign [simp]: "errors (assign s upd) = errors s"
  by (simp add: assign_def)

lemma importSessions_updateProgress:
  "importSessions tr uid = Some s \<Longrightarrow>
   importSessions (updateProgress tr now uid upd) =
     (importSessions tr)(uid \<mapsto> recompute now (assign s upd))"
  by (simp add: updateProgress_def Let_def)

lemma slice_last_length: "length (slice_last n xs) \<le> n"
  by (simp add: slice_last_def)

lemma slice_last_id: "length xs \<le> n \<Longrightarrow> slice_last n xs = xs"
  by (simp add: slice_last_def)

lemma slice_last_snoc: "slice_last n (slice_last n xs @ [x]) = slice_last n (xs @ [x])"
  by (cases "length xs \<le> n") (auto simp: slice_last_def Suc_diff_le)

lemma addError_errors:
  assumes "importSessions tr uid = Some s"
  shows "\<exists>s'. importSessions (addError tr now uid err r) uid = Some s' \<and>
              errors s' = slice_last 100 (errors s @
                [\<lparr>err_message = err, err_row = r, err_timestamp = now\<rparr>])"
proof (cases "100 < length (errors s) + 1")
  case True
  with assms show ?thesis
    by (simp add: addError_def Let_def importSessions_updateProgress)
next
  case False
  with assms show ?thesis
    by (simp add: addError_def Let_def importSessions_updateProgress slice_last_id)
qed

lemma addErrors_snoc:
  "addErrors tr uid (cs @ [c]) =
     (case c of (err, r, now) \<Rightarrow> addError (addErrors tr uid cs) now uid err r)"
  by (simp add: addErrors_def split: prod.splits)

text \<open>
  Claim C2. Whatever the session's error list was, after any non-empty run of \<open>addError\<close>
  calls on a registered session the list has at most 100 entries, and it is exactly the
  last 100 of the old entries followed by the new ones in call order: what is evicted is
  always the oldest entry.
\<close>

theorem addError_log_bounded_fifo:
  assumes "importSessions tr uid = Some s" and "calls \<noteq> []"
  shows "\<exists>s'. importSessions (addErrors tr uid calls) uid = Some s' \<and>
              length (errors s') \<le> 100 \<and>
              errors s' = slice_last 100 (errors s @ map entry_of calls)"
  using assms(2)
proof (induction calls rule: rev_induct)
  case Nil
  then show ?case by simp
next
  case (snoc c cs)
  obtain err r now where c: "c = (err, r, now)" by (cases c) auto
  have ent: "entry_of c = \<lparr>err_message = err, err_row = r, err_timestamp = now\<rparr>"
    by (simp add: c entry_of_def)
  show ?case
  proof (cases "cs = []")
    case True
    from addError_errors [OF assms(1), of now err r]
    show ?thesis
      by (auto simp: True addErrors_def c entry_of_def slice_last_length)
  next
    case False
    with snoc.IH obtain s1 where
      s1: "importSessions (addErrors tr uid cs) uid = Some s1"
      and e1: "errors s1 = slice_last 100 (errors s @ map entry_of cs)"
      by blast
    from addError_errors [OF s1, of now err r] obtain s2 where
      s2: "importSessions (addError (addErrors tr uid cs) now uid err r) uid = Some s2"
      and e2: "errors s2 = slice_last 100 (errors s1 @ [entry_of c])"
      by (auto simp: ent)
    have "errors s2 = slice_last 100 (errors s @ map entry_of (cs @ [c]))"
      by (simp add: e2 e1 slice_last_snoc)
    with s2 show ?thesis
      by (simp add: addErrors_snoc c slice_last_length)
  qed
qed

text \<open>
  A run of 101 errors, numbered 0 to 100 by their row, on a fresh session: the log keeps
  rows 1 to 100, so the first error is the one that was dropped.
\<close>

theorem addError_log_bounded_fifo_witness:
  "\<exists>s'. importSessions
          (addErrors sample_tracker ''u1'' (map (\<lambda>i. ([], Some i, 0)) [0..<101]))
          ''u1'' = Some s' \<and>
        length (errors s') \<le> 100 \<and>
        map err_row (errors s') = map Some [1..<101]"
  using addError_log_bounded_fifo [of sample_tracker "''u1''" sample_session
      "map (\<lambda>i. ([], Some i, 0)) [0..<101]"]
  by (auto simp: sample_tracker_def sample_session_def slice_last_def entry_of_def
      comp_def drop_map upt_conv_Cons)

text \<open>
  Claim C10. For an upload id with no registered session, \<open>updateProgress\<close>, \<open>addError\<close>
  and \<open>completeImportSession\<close> return the service unchanged: no session is created or
  modified, nothing is handed to a socket and no deletion is scheduled.
\<close>

theorem tracker_noop_without_session:
  assumes "importSessions tr uid = None"
  shows "updateProgress tr now uid upd = tr \<and>
         addError tr now uid err r = tr \<and>
         completeImportSession tr now uid res = tr"
  using assms
  by (simp add: updateProgress_def addError_def completeImportSession_def)

theorem tracker_noop_without_session_witness:
  "updateProgress sample_tracker 5 ''other'' no_update = sample_tracker \<and>
   addError sample_tracker 5 ''other'' ''bad row'' (Some 3) = sample_tracker \<and>
   completeImportSession sample_tracker 5 ''other''
     \<lparr>success = True, imported = Some 1, result_errors = Some 0, result_total = Some 1,
      result_message = None, result_error = None\<rparr> = sample_tracker"
  using tracker_noop_without_session
    [of sample_tracker "''other''" 5 no_update "''bad row''" "Some 3"]
  by (simp add: sample_tracker_def)

section \<open>Properties of the string functions\<close>

lemma trim_id:
  assumes "s \<noteq> []" "\<not> isWhiteSpace (hd s)" "\<not> isWhiteSpace (last s)"
  shows "trim s = s"
proof -
  from assms have 1: "dropWhile isWhiteSpace s = s"
    by (cases s) auto
  from assms have "rev s \<noteq> []" "\<not> isWhiteSpace (hd (rev s))"
    by (auto simp: hd_rev)
  then have 2: "dropWhile isWhiteSpace (rev s) = rev s"
    by (cases "rev s") auto
  show ?thesis by (simp add: trim_def 1 2)
qed

lemma js_split_no_sep: "sep \<notin> set a \<Longrightarrow> js_split sep a = [a]"
  by (induction a) auto

lemma js_split_append:
  "sep \<notin> set a \<Longrightarrow> js_split sep (a @ sep # rest) = a # js_split sep rest"
  by (induction a) (auto split: list.splits)

lemma strip_currency_id: "CHR ''R'' \<notin> set s \<Longrightarrow> strip_currency s = s"
  by (induction s rule: strip_currency.induct) auto

lemma replace_first_append:
  "a \<notin> set pre \<Longrightarrow> replace_first a b (pre @ a # rest) = pre @ b # rest"
  by (induction pre) auto

lemma takeWhile_digits: "list_all isDigit ds \<Longrightarrow> \<not> isDigit c \<Longrightarrow> takeWhile isDigit (ds @ c # r) = ds"
  by (induction ds) auto

lemma dropWhile_digits: "list_all isDigit ds \<Longrightarrow> \<not> isDigit c \<Longrightarrow> dropWhile isDigit (ds @ c # r) = c # r"
  by (induction ds) auto

lemma takeWhile_all: "list_all isDigit ds \<Longrightarrow> takeWhile isDigit ds = ds"
  by (induction ds) auto

lemma dropWhile_all: "list_all isDigit ds \<Longrightarrow> dropWhile isDigit ds = []"
  by (induction ds) auto

lemma unsigned_literal_decimal:
  assumes "ds \<noteq> []" "list_all isDigit ds" "list_all isDigit fs"
  shows "unsigned_literal (ds @ CHR ''.'' # fs) = Fin (decimal ds fs)"
proof -
  have nd: "\<not> isDigit CHR ''.''" by (simp add: isDigit_def)
  from assms obtain c cs where ds: "ds = c # cs" and c: "isDigit c"
    by (cases ds) auto
  from c have "c \<noteq> CHR ''I''" by (auto simp: isDigit_def)
  then have ninf: "\<not> startsWith (ds @ CHR ''.'' # fs) ''Infinity''"
    by (simp add: ds)
  show ?thesis
    using assms ninf
    by (simp add: unsigned_literal_def Let_def takeWhile_digits [OF _ nd] dropWhile_digits [OF _ nd]
        takeWhile_all dropWhile_all exponent_part_def)
qed

lemma parseFloat_decimal:
  assumes "ds \<noteq> []" "list_all isDigit ds" "list_all isDigit fs"
  shows "parseFloat (ds @ CHR ''.'' # fs) = Fin (decimal ds fs)"
    and "parseFloat (CHR ''-'' # ds @ CHR ''.'' # fs) = Fin (- decimal ds fs)"
proof -
  from assms obtain c cs where ds: "ds = c # cs" and c: "isDigit c"
    by (cases ds) auto
  from c have c': "\<not> isWhiteSpace c" "c \<noteq> CHR ''-''" "c \<noteq> CHR ''+''"
    by (auto simp: isDigit_def isWhiteSpace_def)
  have "parseFloat (ds @ CHR ''.'' # fs) = unsigned_literal (ds @ CHR ''.'' # fs)"
    using c' by (simp add: parseFloat_def ds)
  then show "parseFloat (ds @ CHR ''.'' # fs) = Fin (decimal ds fs)"
    by (simp add: unsigned_literal_decimal [OF assms])
  have "parseFloat (CHR ''-'' # ds @ CHR ''.'' # fs) = js_neg (unsigned_literal (ds @ CHR ''.'' # fs))"
    by (simp add: parseFloat_def isWhiteSpace_def)
  then show "parseFloat (CHR ''-'' # ds @ CHR ''.'' # fs) = Fin (- decimal ds fs)"
    by (simp add: unsigned_literal_decimal [OF assms] js_neg_def)
qed

lemma decimal_nonneg: "0 \<le> decimal ds fs"
  by (simp add: decimal_def)

section \<open>Properties of the amount parser\<close>

lemma in_set_dropWhile: "\<not> P c \<Longrightarrow> c \<in> set (dropWhile P xs) \<longleftrightarrow> c \<in> set xs"
  by (induction xs) auto

lemma in_set_strip_currency:
  "c \<noteq> CHR ''R'' \<Longrightarrow> c \<noteq> CHR ''$'' \<Longrightarrow> \<not> isWhiteSpace c \<Longrightarrow>
   c \<in> set (strip_currency s) \<longleftrightarrow> c \<in> set s"
  by (induction s rule: strip_currency.induct) (auto simp: in_set_dropWhile)

lemma dot_comma_survive:
  "CHR ''.'' \<in> set (strip_currency (filter (\<lambda>c. c \<noteq> CHR 0x22) s)) \<longleftrightarrow> CHR ''.'' \<in> set s"
  "CHR '','' \<in> set (strip_currency (filter (\<lambda>c. c \<noteq> CHR 0x22) s)) \<longleftrightarrow> CHR '','' \<in> set s"
  by (simp_all add: in_set_strip_currency isWhiteSpace_def)

lemma cleanAmount_both:
  assumes "CHR ''.'' \<in> set s" "CHR '','' \<in> set s"
  shows "cleanAmount s =
           trim (replace_first CHR '','' CHR ''.''
             (filter (\<lambda>c. c \<noteq> CHR ''.'') (strip_currency (filter (\<lambda>c. c \<noteq> CHR 0x22) s))))"
  using assms by (simp add: cleanAmount_def Let_def dot_comma_survive)

lemma cleanAmount_comma_only:
  assumes "CHR ''.'' \<notin> set s" "CHR '','' \<in> set s"
  shows "cleanAmount s =
           trim (replace_first CHR '','' CHR ''.'' (strip_currency (filter (\<lambda>c. c \<noteq> CHR 0x22) s)))"
  using assms by (simp add: cleanAmount_def Let_def dot_comma_survive)

lemma filter_id: "\<forall>c\<in>set s. P c \<Longrightarrow> filter P s = s"
  by (induction s) auto

lemma isDigit_other:
  assumes "isDigit c"
  shows "c \<noteq> CHR ''.''" "c \<noteq> CHR '',''" "c \<noteq> CHR ''-''" "c \<noteq> CHR ''+''"
    "c \<noteq> CHR 0x22" "c \<noteq> CHR ''R''" "c \<noteq> CHR ''/''" "c \<noteq> CHR ''I''"
    "\<not> isWhiteSpace c"
  using assms by (auto simp: isDigit_def isWhiteSpace_def)

lemma digits_filter:
  "list_all isDigit ds \<Longrightarrow> \<not> isDigit x \<Longrightarrow> filter (\<lambda>c. c \<noteq> x) ds = ds"
  by (induction ds) auto

lemma not_digit [simp]:
  "\<not> isDigit CHR ''.''" "\<not> isDigit CHR '',''" "\<not> isDigit CHR ''-''" "\<not> isDigit CHR 0x22"
  "\<not> isDigit CHR ''R''" "\<not> isDigit CHR ''/''"
  by (simp_all add: isDigit_def)

lemma not_ws: "\<not> isWhiteSpace CHR ''-''" "\<not> isWhiteSpace CHR ''.''"
  by (simp_all add: isWhiteSpace_def)

lemma digits_notin:
  "list_all isDigit ds \<Longrightarrow> \<not> isDigit x \<Longrightarrow> x \<notin> set ds"
  by (induction ds) auto

lemma set_grouped: "set (grouped gs) \<subseteq> insert CHR ''.'' (set (concat gs))"
  by (induction gs rule: grouped.induct) auto

lemma filter_grouped:
  "list_all (list_all isDigit) gs \<Longrightarrow> filter (\<lambda>c. c \<noteq> CHR ''.'') (grouped gs) = concat gs"
  by (induction gs rule: grouped.induct) (simp_all add: digits_filter)

lemma digits_concat: "list_all (list_all isDigit) gs \<Longrightarrow> list_all isDigit (concat gs)"
  by (induction gs) auto

text \<open>The cleaned text of a Brazilian amount: optional sign, digit groups, comma, digits.\<close>

lemma cleanAmount_brazilian:
  assumes gs: "list_all (list_all isDigit) gs" and ne: "concat gs \<noteq> []"
    and fs: "list_all isDigit fs" and sg: "sg = [] \<or> sg = ''-''"
  shows "cleanAmount (sg @ grouped gs @ CHR '','' # fs) = sg @ concat gs @ CHR ''.'' # fs"
proof -
  let ?s = "sg @ grouped gs @ CHR '','' # fs"
  have dg: "list_all isDigit (concat gs)" by (rule digits_concat [OF gs])
  have set_s: "set ?s \<subseteq> set sg \<union> insert CHR ''.'' (set (concat gs)) \<union> insert CHR '','' (set fs)"
    using set_grouped [of gs] by auto
  have nq: "CHR 0x22 \<notin> set ?s"
    using set_s sg digits_notin [OF dg, of "CHR 0x22"] digits_notin [OF fs, of "CHR 0x22"]
    by auto
  have nr: "CHR ''R'' \<notin> set ?s"
    using set_s sg digits_notin [OF dg, of "CHR ''R''"] digits_notin [OF fs, of "CHR ''R''"]
    by auto
  have q: "filter (\<lambda>c. c \<noteq> CHR 0x22) ?s = ?s"
    by (rule filter_id) (use nq in auto)
  have r: "strip_currency ?s = ?s"
    by (rule strip_currency_id [OF nr])
  have f: "filter (\<lambda>c. c \<noteq> CHR ''.'') ?s = sg @ concat gs @ CHR '','' # fs"
  proof -
    have "filter (\<lambda>c. c \<noteq> CHR ''.'') sg = sg" using sg by auto
    moreover have "filter (\<lambda>c. c \<noteq> CHR ''.'') fs = fs"
      using fs by (simp add: digits_filter)
    ultimately show ?thesis by (simp add: filter_grouped [OF gs])
  qed
  have nc: "CHR '','' \<notin> set (sg @ concat gs)"
    using sg digits_notin [OF dg, of "CHR '',''"] by auto
  have rep: "replace_first CHR '','' CHR ''.'' (sg @ concat gs @ CHR '','' # fs)
               = sg @ concat gs @ CHR ''.'' # fs"
    using replace_first_append [OF nc, of "CHR ''.''" fs] by simp
  have c3: "(if CHR ''.'' \<in> set ?s \<and> CHR '','' \<in> set ?s
             then replace_first CHR '','' CHR ''.'' (filter (\<lambda>c. c \<noteq> CHR ''.'') ?s)
             else if CHR '','' \<in> set ?s \<and> CHR ''.'' \<notin> set ?s
             then replace_first CHR '','' CHR ''.'' ?s
             else ?s) = sg @ concat gs @ CHR ''.'' # fs"
  proof (cases "CHR ''.'' \<in> set ?s")
    case True
    then show ?thesis by (simp add: f rep del: filter_append)
  next
    case False
    then have "filter (\<lambda>c. c \<noteq> CHR ''.'') ?s = ?s"
      by (intro filter_id) auto
    with f have "?s = sg @ concat gs @ CHR '','' # fs" by simp
    with False rep show ?thesis by simp
  qed
  have t: "trim (sg @ concat gs @ CHR ''.'' # fs) = sg @ concat gs @ CHR ''.'' # fs"
  proof (rule trim_id)
    show "sg @ concat gs @ CHR ''.'' # fs \<noteq> []" by simp
    show "\<not> isWhiteSpace (hd (sg @ concat gs @ CHR ''.'' # fs))"
      using sg ne dg by (cases "concat gs") (auto simp: not_ws isDigit_other)
    show "\<not> isWhiteSpace (last (sg @ concat gs @ CHR ''.'' # fs))"
      using fs by (cases fs rule: rev_cases) (auto simp: not_ws isDigit_other)
  qed
  show ?thesis
    unfolding cleanAmount_def Let_def q r c3 t ..
qed

lemma parseAmount_brazilian:
  assumes gs: "list_all (list_all isDigit) gs" and ne: "concat gs \<noteq> []"
    and fs: "list_all isDigit fs"
  shows "parseAmount (Some (grouped gs @ CHR '','' # fs)) = Inr (Fin (decimal (concat gs) fs))"
    and "parseAmount (Some (CHR ''-'' # grouped gs @ CHR '','' # fs)) = Inr (Fin (decimal (concat gs) fs))"
proof -
  have dg: "list_all isDigit (concat gs)" by (rule digits_concat [OF gs])
  have 1: "cleanAmount (grouped gs @ CHR '','' # fs) = concat gs @ CHR ''.'' # fs"
    using cleanAmount_brazilian [OF gs ne fs, of "[]"] by simp
  have 2: "cleanAmount (CHR ''-'' # grouped gs @ CHR '','' # fs) = CHR ''-'' # concat gs @ CHR ''.'' # fs"
    using cleanAmount_brazilian [OF gs ne fs, of "''-''"] by simp
  show "parseAmount (Some (grouped gs @ CHR '','' # fs)) = Inr (Fin (decimal (concat gs) fs))"
    by (simp add: parseAmount_def 1 parseFloat_decimal [OF ne dg fs] decimal_nonneg)
  show "parseAmount (Some (CHR ''-'' # grouped gs @ CHR '','' # fs)) = Inr (Fin (decimal (concat gs) fs))"
    by (simp add: parseAmount_def 2 parseFloat_decimal [OF ne dg fs] decimal_nonneg)
qed

lemma Math_abs_nonneg: "\<not> isNaN x \<Longrightarrow> js_le (Fin 0) (Math_abs x)"
  by (cases x) auto

lemma parseAmount_nonneg: "parseAmount a = Inr v \<Longrightarrow> js_le (Fin 0) v"
  by (auto simp: parseAmount_def Let_def Math_abs_nonneg split: option.splits if_splits)

lemma determineType_negative:
  "m_amount mapping = Some a \<Longrightarrow> map_of r a = Some (CHR ''-'' # rest) \<Longrightarrow>
   determineTypeGBMoney r mapping = expense"
  by (simp add: determineTypeGBMoney_def cell_def truthy_def)

section \<open>Amounts: claims C3 and C7\<close>

text \<open>
  Claim C3. When the text of an amount holds a dot and a comma, every dot is dropped
  (a thousands separator) and the first comma becomes the decimal point; when it holds
  a comma and no dot, the first comma becomes the decimal point. So a Brazilian amount,
  digit groups separated by dots, a comma and the decimals, parses to the value of its
  digits, with or without a leading minus sign: the result is the absolute value, it is
  never negative, and a row whose amount text begins with a minus sign is an expense.
\<close>

theorem parseAmount_brazilian_format:
  "(CHR ''.'' \<in> set s \<and> CHR '','' \<in> set s \<longrightarrow>
      cleanAmount s =
        trim (replace_first CHR '','' CHR ''.''
          (filter (\<lambda>c. c \<noteq> CHR ''.'') (strip_currency (filter (\<lambda>c. c \<noteq> CHR 0x22) s))))) \<and>
   (CHR ''.'' \<notin> set s \<and> CHR '','' \<in> set s \<longrightarrow>
      cleanAmount s =
        trim (replace_first CHR '','' CHR ''.'' (strip_currency (filter (\<lambda>c. c \<noteq> CHR 0x22) s)))) \<and>
   (list_all (list_all isDigit) gs \<and> concat gs \<noteq> [] \<and> list_all isDigit fs \<longrightarrow>
      parseAmount (Some (grouped gs @ CHR '','' # fs)) = Inr (Fin (decimal (concat gs) fs)) \<and>
      parseAmount (Some (CHR ''-'' # grouped gs @ CHR '','' # fs)) =
        Inr (Fin (decimal (concat gs) fs))) \<and>
   (\<forall>v. parseAmount a = Inr v \<longrightarrow> js_le (Fin 0) v) \<and>
   (m_amount mapping = Some col \<and> map_of r col = Some (CHR ''-'' # rest) \<longrightarrow>
      determineTypeGBMoney r mapping = expense)"
  using cleanAmount_both [of s] cleanAmount_comma_only [of s]
    parseAmount_brazilian [of gs fs] parseAmount_nonneg [of a]
    determineType_negative [of mapping col r rest]
  by blast

text \<open>The amounts \<open>1.234,56\<close>, \<open>1234,56\<close> and \<open>-50,00\<close>, and the type of a row with the last.\<close>

theorem parseAmount_brazilian_format_witness:
  "parseAmount (Some ''1.234,56'') = Inr (Fin (123456 / 100)) \<and>
   parseAmount (Some ''1234,56'') = Inr (Fin (123456 / 100)) \<and>
   parseAmount (Some ''-50,00'') = Inr (Fin 50) \<and>
   determineTypeGBMoney [(''Data'', ''5/3/24''), (''Valor'', ''-50,00'')]
     (generateColumnMapping [] gbmoney_csv) = expense"
proof -
  have d: "decimal ''1234'' ''56'' = 123456 / 100" "decimal ''50'' ''00'' = 50"
    by (simp_all add: decimal_def digitsValue_def digitValue_def)
  have 1: "parseAmount (Some ''1.234,56'') = Inr (Fin (123456 / 100))"
    using parseAmount_brazilian_format
      [of "[]" "[''1'', ''234'']" "''56''" None "generateColumnMapping [] gbmoney_csv" "[]" "[]" "[]"]
    by (simp add: isDigit_def d)
  have 2: "parseAmount (Some ''1234,56'') = Inr (Fin (123456 / 100))"
    using parseAmount_brazilian_format
      [of "[]" "[''1234'']" "''56''" None "generateColumnMapping [] gbmoney_csv" "[]" "[]" "[]"]
    by (simp add: isDigit_def d)
  have 3: "parseAmount (Some ''-50,00'') = Inr (Fin 50)"
    using parseAmount_brazilian_format
      [of "[]" "[''50'']" "''00''" None "generateColumnMapping [] gbmoney_csv" "[]" "[]" "[]"]
    by (simp add: isDigit_def d)
  have 4: "determineTypeGBMoney [(''Data'', ''5/3/24''), (''Valor'', ''-50,00'')]
     (generateColumnMapping [] gbmoney_csv) = expense"
    using parseAmount_brazilian_format
      [of "[]" "[]" "[]" None "generateColumnMapping [] gbmoney_csv" "''Valor''"
         "[(''Data'', ''5/3/24''), (''Valor'', ''-50,00'')]" "''50,00''"]
    by (simp add: generateColumnMapping_def)
  from 1 2 3 4 show ?thesis by simp
qed

text \<open>
  Claim C7 fails for the empty and the absent cell: \<open>parseFloat\<close> finds no number in the
  empty text, and \<open>parseAmount\<close> returns 0 for it instead of raising an error (its first
  statement returns 0 for a missing amount).
\<close>

theorem parseAmount_empty_counterexample:
  "isNaN (parseFloat (cleanAmount [])) \<and>
   parseAmount (Some []) = Inr (Fin 0) \<and> parseAmount None = Inr (Fin 0)"
  by (simp add: parseAmount_def cleanAmount_def parseFloat_def trim_def)

subsection \<open>A row whose amount cannot be parsed\<close>

text \<open>
  What \<open>transform\<close> does with a row whose mapping raises an error, and what \<open>addError\<close>
  leaves in a registered session.
\<close>

lemma Math_abs_not_NaN: "\<not> isNaN x \<Longrightarrow> \<not> isNaN (Math_abs x)"
  by (cases x) auto

lemma parseAmount_raises:
  "s \<noteq> [] \<Longrightarrow> isNaN (parseFloat (cleanAmount s)) \<Longrightarrow>
   parseAmount (Some s) = Inl (Valor_invalido @ s)"
  by (simp add: parseAmount_def)

lemma mapRow_amount_raises:
  assumes "parseAmount (cell r (m_amount mapping)) = Inl e"
  shows "\<exists>msg. mapRowToTransaction eng r mapping cm user = Inl msg \<and>
               ((\<exists>d. parseDate (Date_parse eng) (cell r (m_date mapping)) = Inr d) \<longrightarrow> msg = e)"
proof (cases "parseDate (Date_parse eng) (cell r (m_date mapping))")
  case (Inl m)
  then show ?thesis by (simp add: mapRowToTransaction_def Let_def)
next
  case (Inr d)
  with assms show ?thesis by (simp add: mapRowToTransaction_def Let_def)
qed

lemma transform_row_error:
  assumes "isValidDataRow r (pv_type (ud_preview ud))"
    and "mapRowToTransaction (env_engine env) r mapping cm user = Inl msg"
  shows "transform env ud mapping cm user uid r (v, w) =
           (v\<lparr>processedCount := processedCount v + 1, p_errorCount := p_errorCount v + 1\<rparr>,
            w\<lparr>tracker := addError (tracker w) (clock env (processedCount v + 1)) uid msg
                           (Some (processedCount v + 1))\<rparr>)"
  using assms by (simp add: transform_def Let_def)

lemma transform_skips:
  assumes "\<not> isValidDataRow r (pv_type (ud_preview ud))"
  shows "transform env ud mapping cm user uid r (v, w) =
           (v\<lparr>processedCount := processedCount v + 1\<rparr>, w)"
  using assms by (simp add: transform_def Let_def)

lemma errorRows_recompute: "errorRows (recompute now s) = errorRows s"
  by (simp add: recompute_def Let_def)

lemma errorRows_assign_none: "errorRows (assign s no_update) = errorRows s"
  by (simp add: assign_def no_update_def)

lemma last_slice_last:
  assumes "0 < n" and "xs \<noteq> []"
  shows "slice_last n xs \<noteq> [] \<and> last (slice_last n xs) = last xs"
proof -
  from assms(2) have "0 < length xs" by simp
  with assms(1) have "length xs - n < length xs" by arith
  then show ?thesis by (simp add: slice_last_def)
qed

lemma addError_records:
  assumes "importSessions tr uid = Some s0"
  shows "\<exists>s'. importSessions (addError tr now uid msg rowNo) uid = Some s' \<and>
              errorRows s' = errorRows s0 + 1 \<and> errors s' \<noteq> [] \<and>
              last (errors s') = \<lparr>err_message = msg, err_row = rowNo, err_timestamp = now\<rparr>"
proof -
  let ?e = "\<lparr>err_message = msg, err_row = rowNo, err_timestamp = now\<rparr>"
  have l: "slice_last 100 (errors s0 @ [?e]) \<noteq> [] \<and> last (slice_last 100 (errors s0 @ [?e])) = ?e"
    using last_slice_last [of 100 "errors s0 @ [?e]"] by simp
  show ?thesis
  proof (cases "100 < length (errors s0) + 1")
    case True
    with assms l show ?thesis
      by (simp add: addError_def Let_def importSessions_updateProgress errorRows_recompute
          errorRows_assign_none)
  next
    case False
    with assms show ?thesis
      by (simp add: addError_def Let_def importSessions_updateProgress errorRows_recompute
          errorRows_assign_none)
  qed
qed

text \<open>
  Claim C7, amended. \<open>parseAmount\<close> raises an error, \<open>Valor_invalido\<close> followed by the
  text of the cell, exactly when the cell is a non-empty string in whose cleaned text
  \<open>parseFloat\<close> finds no number; and a value it returns is never NaN. (The empty and
  the absent cell give 0.) So a row that \<open>isValidDataRow\<close> accepts and whose amount
  cell is such a string is recorded as an error: \<open>transform\<close> counts the row, adds one
  to the error count of the import and calls \<open>addError\<close> with the number of the row and
  a message, which is the message of \<open>parseAmount\<close> when the date of the row can be
  parsed (the date is parsed first, and its error is the one recorded otherwise); and
  \<open>addError\<close> adds one to the error rows of a registered session and puts the message,
  the row number and the time at the end of its log. A row that \<open>isValidDataRow\<close>
  refuses is counted and skipped, whatever its amount: nothing is recorded for it.
\<close>

theorem unparsable_amount_fails_row:
  "(parseAmount a = Inl e \<longleftrightarrow>
      (\<exists>s. a = Some s \<and> s \<noteq> [] \<and> isNaN (parseFloat (cleanAmount s)) \<and> e = Valor_invalido @ s)) \<and>
   (\<forall>x. parseAmount a = Inr x \<longrightarrow> \<not> isNaN x) \<and>
   (isValidDataRow r (pv_type (ud_preview ud)) \<and> cell r (m_amount mapping) = Some s \<and> s \<noteq> [] \<and>
    isNaN (parseFloat (cleanAmount s)) \<longrightarrow>
      (\<exists>msg. transform env ud mapping cm user uid r (v, w) =
               (v\<lparr>processedCount := processedCount v + 1, p_errorCount := p_errorCount v + 1\<rparr>,
                w\<lparr>tracker := addError (tracker w) (clock env (processedCount v + 1)) uid msg
                               (Some (processedCount v + 1))\<rparr>) \<and>
             ((\<exists>d. parseDate (Date_parse (env_engine env)) (cell r (m_date mapping)) = Inr d)
                \<longrightarrow> msg = Valor_invalido @ s))) \<and>
   (importSessions tr uid = Some s0 \<longrightarrow>
      (\<exists>s'. importSessions (addError tr now uid msg' rowNo) uid = Some s' \<and>
            errorRows s' = errorRows s0 + 1 \<and> errors s' \<noteq> [] \<and>
            last (errors s') = \<lparr>err_message = msg', err_row = rowNo, err_timestamp = now\<rparr>)) \<and>
   (\<not> isValidDataRow r (pv_type (ud_preview ud)) \<longrightarrow>
      transform env ud mapping cm user uid r (v, w) =
        (v\<lparr>processedCount := processedCount v + 1\<rparr>, w))"
proof -
  have 1: "parseAmount a = Inl e \<longleftrightarrow>
      (\<exists>s. a = Some s \<and> s \<noteq> [] \<and> isNaN (parseFloat (cleanAmount s)) \<and> e = Valor_invalido @ s)"
    by (cases a) (auto simp: parseAmount_def Let_def)
  have 2: "\<forall>x. parseAmount a = Inr x \<longrightarrow> \<not> isNaN x"
    by (cases a) (auto simp: parseAmount_def Let_def Math_abs_not_NaN)
  have 3: "\<exists>msg. transform env ud mapping cm user uid r (v, w) =
               (v\<lparr>processedCount := processedCount v + 1, p_errorCount := p_errorCount v + 1\<rparr>,
                w\<lparr>tracker := addError (tracker w) (clock env (processedCount v + 1)) uid msg
                               (Some (processedCount v + 1))\<rparr>) \<and>
             ((\<exists>d. parseDate (Date_parse (env_engine env)) (cell r (m_date mapping)) = Inr d)
                \<longrightarrow> msg = Valor_invalido @ s)"
    if valid: "isValidDataRow r (pv_type (ud_preview ud))"
      and c: "cell r (m_amount mapping) = Some s" and ne: "s \<noteq> []"
      and nan: "isNaN (parseFloat (cleanAmount s))"
  proof -
    have "parseAmount (cell r (m_amount mapping)) = Inl (Valor_invalido @ s)"
      unfolding c by (rule parseAmount_raises [OF ne nan])
    from mapRow_amount_raises [OF this, of "env_engine env" cm user]
    obtain msg where m: "mapRowToTransaction (env_engine env) r mapping cm user = Inl msg"
      "(\<exists>d. parseDate (Date_parse (env_engine env)) (cell r (m_date mapping)) = Inr d)
         \<longrightarrow> msg = Valor_invalido @ s"
      by blast
    from transform_row_error [OF valid m(1), of uid v w] m(2) show ?thesis
      by blast
  qed
  have 4: "importSessions tr uid = Some s0 \<longrightarrow>
      (\<exists>s'. importSessions (addError tr now uid msg' rowNo) uid = Some s' \<and>
            errorRows s' = errorRows s0 + 1 \<and> errors s' \<noteq> [] \<and>
            last (errors s') = \<lparr>err_message = msg', err_row = rowNo, err_timestamp = now\<rparr>)"
    using addError_records by blast
  have 5: "\<not> isValidDataRow r (pv_type (ud_preview ud)) \<longrightarrow>
      transform env ud mapping cm user uid r (v, w) =
        (v\<lparr>processedCount := processedCount v + 1\<rparr>, w)"
    using transform_skips by blast
  from 1 2 3 4 5 show ?thesis by blast
qed

text \<open>
  The row \<open>5/3/24, Mercado, abc\<close> as the first row of the staged file of user \<open>alice\<close>:
  it is counted as an error, and the session has one error row and the entry of row 1
  at the end of its log. A row with a blank amount and no other text is skipped, though
  \<open>parseAmount\<close> raises an error for its amount.
\<close>

theorem unparsable_amount_fails_row_witness:
  "parseAmount (Some ''abc'') = Inl (Valor_invalido @ ''abc'') \<and>
   isValidDataRow bad_amount_row (pv_type (ud_preview sample_staged)) \<and>
   transform (sample_env bulk_ok) sample_staged sample_mapping Map.empty ''alice'' ''u1''
       bad_amount_row (no_rows_yet, started_server) =
     (no_rows_yet\<lparr>processedCount := 1, p_errorCount := 1\<rparr>,
      started_server\<lparr>tracker := addError (tracker started_server) 1000 ''u1''
                                    (Valor_invalido @ ''abc'') (Some 1)\<rparr>) \<and>
   (\<exists>s'. importSessions (addError (tracker started_server) 1000 ''u1''
                           (Valor_invalido @ ''abc'') (Some 1)) ''u1'' = Some s' \<and>
         errorRows s' = 1 \<and>
         last (errors s') = \<lparr>err_message = Valor_invalido @ ''abc'', err_row = Some 1,
                              err_timestamp = 1000\<rparr>) \<and>
   parseAmount (cell blank_amount_row (m_amount sample_mapping)) = Inl (Valor_invalido @ ''  '') \<and>
   transform (sample_env bulk_ok) sample_staged sample_mapping Map.empty ''alice'' ''u1''
       blank_amount_row (no_rows_yet, started_server) =
     (no_rows_yet\<lparr>processedCount := 1\<rparr>, started_server)"
proof -
  define s0 where "s0 = the (importSessions (tracker started_server) ''u1'')"
  have nan: "isNaN (parseFloat (cleanAmount ''abc''))"
    by code_simp
  have valid: "isValidDataRow bad_amount_row (pv_type (ud_preview sample_staged))"
    by code_simp
  have c: "cell bad_amount_row (m_amount sample_mapping) = Some ''abc''"
    by code_simp
  have d: "parseDate (Date_parse (env_engine (sample_env bulk_ok)))
             (cell bad_amount_row (m_date sample_mapping)) = Inr (Some (Date 2024 2 5))"
    by code_simp
  have "importSessions (tracker started_server) ''u1'' \<noteq> None"
    by code_simp
  then have reg: "importSessions (tracker started_server) ''u1'' = Some s0"
    by (simp add: s0_def)
  have "errorRows (the (importSessions (tracker started_server) ''u1'')) = 0"
    by code_simp
  then have e0: "errorRows s0 = 0"
    by (simp add: s0_def)
  have t: "processedCount no_rows_yet + 1 = 1" "p_errorCount no_rows_yet + 1 = 1"
    by (simp_all add: no_rows_yet_def)
  have k: "clock (sample_env bulk_ok) 1 = 1000"
    by (simp add: sample_env_def)
  have first_row:
    "parseAmount (Some ''abc'') = Inl (Valor_invalido @ ''abc'') \<and>
     transform (sample_env bulk_ok) sample_staged sample_mapping Map.empty ''alice'' ''u1''
         bad_amount_row (no_rows_yet, started_server) =
       (no_rows_yet\<lparr>processedCount := 1, p_errorCount := 1\<rparr>,
        started_server\<lparr>tracker := addError (tracker started_server) 1000 ''u1''
                                      (Valor_invalido @ ''abc'') (Some 1)\<rparr>) \<and>
     (\<exists>s'. importSessions (addError (tracker started_server) 1000 ''u1''
                             (Valor_invalido @ ''abc'') (Some 1)) ''u1'' = Some s' \<and>
           errorRows s' = 1 \<and>
           last (errors s') = \<lparr>err_message = Valor_invalido @ ''abc'', err_row = Some 1,
                                err_timestamp = 1000\<rparr>)"
    using unparsable_amount_fails_row [where a = "Some ''abc''" and e = "Valor_invalido @ ''abc''"
        and r = bad_amount_row and ud = sample_staged and mapping = sample_mapping
        and s = "''abc''" and env = "sample_env bulk_ok" and cm = Map.empty and user = "''alice''"
        and uid = "''u1''" and v = no_rows_yet and w = started_server
        and tr = "tracker started_server" and now = 1000 and msg' = "Valor_invalido @ ''abc''"
        and rowNo = "Some 1" and ?s0.0 = s0]
      nan valid c d reg e0
    unfolding t k by auto
  have nan': "isNaN (parseFloat (cleanAmount ''  ''))"
    by code_simp
  have c': "cell blank_amount_row (m_amount sample_mapping) = Some ''  ''"
    by code_simp
  have skipped: "\<not> isValidDataRow blank_amount_row (pv_type (ud_preview sample_staged))"
    by code_simp
  have blank_row:
    "parseAmount (cell blank_amount_row (m_amount sample_mapping)) = Inl (Valor_invalido @ ''  '') \<and>
     transform (sample_env bulk_ok) sample_staged sample_mapping Map.empty ''alice'' ''u1''
         blank_amount_row (no_rows_yet, started_server) =
       (no_rows_yet\<lparr>processedCount := 1\<rparr>, started_server)"
    using unparsable_amount_fails_row [where a = "Some ''  ''" and e = "Valor_invalido @ ''  ''"
        and r = blank_amount_row and ud = sample_staged and mapping = sample_mapping
        and s = "''  ''" and env = "sample_env bulk_ok" and cm = Map.empty and user = "''alice''"
        and uid = "''u1''" and v = no_rows_yet and w = started_server
        and tr = "tracker started_server" and now = 1000 and msg' = "Valor_invalido @ ''  ''"
        and rowNo = "Some 1" and ?s0.0 = s0]
      nan' skipped reg
    unfolding t c' by auto
  from first_row valid blank_row show ?thesis
    by blast
qed

section \<open>Access to the preview and the status: claim C8\<close>

text \<open>
  Claim C8. When the upload (for the preview) or the session (for the status) exists
  and its owner is not the requester, the reply is 403 with the error
  \<open>Nao_autorizado\<close>; when there is no such upload or session the reply is 404.
\<close>

theorem foreign_owner_is_unauthorized:
  "(storage uid = Some ud \<and> ud_userId ud \<noteq> requester \<longrightarrow>
      getPreview storage uid requester =
        \<lparr>statusCode = 403, body = error_body Nao_autorizado\<rparr>) \<and>
   (importSessions tr uid = Some s \<and> userId s \<noteq> requester \<longrightarrow>
      importStatus tr uid requester =
        \<lparr>statusCode = 403, body = error_body Nao_autorizado\<rparr>) \<and>
   (storage uid = None \<longrightarrow> statusCode (getPreview storage uid requester) = 404) \<and>
   (importSessions tr uid = None \<longrightarrow> statusCode (importStatus tr uid requester) = 404)"
  by (simp add: getPreview_def importStatus_def getSessionStatus_def)

theorem foreign_owner_is_unauthorized_witness:
  "getPreview [''u1'' \<mapsto> sample_upload] ''u1'' ''bob'' =
     \<lparr>statusCode = 403, body = error_body Nao_autorizado\<rparr> \<and>
   importStatus sample_tracker ''u1'' ''bob'' =
     \<lparr>statusCode = 403, body = error_body Nao_autorizado\<rparr> \<and>
   statusCode (getPreview [''u1'' \<mapsto> sample_upload] ''u2'' ''bob'') = 404 \<and>
   statusCode (importStatus sample_tracker ''u2'' ''bob'') = 404 \<and>
   statusCode (getPreview [''u1'' \<mapsto> sample_upload] ''u1'' ''alice'') = 200"
  using foreign_owner_is_unauthorized
      [of "[''u1'' \<mapsto> sample_upload]" "''u1''" sample_upload "''bob''" sample_tracker sample_session]
    foreign_owner_is_unauthorized
      [of "[''u1'' \<mapsto> sample_upload]" "''u2''" sample_upload "''bob''" sample_tracker sample_session]
  by (simp add: sample_upload_def sample_tracker_def sample_session_def getPreview_def)

section \<open>Dates: claims C6 and C9\<close>

lemma parseInt_nonneg: "0 \<le> parseInt s"
  by (simp add: parseInt_def)

lemma slash_date_split:
  assumes "digits_between 1 2 a" "digits_between 1 2 b" "digits_between n n c"
  shows "js_split CHR ''/'' (a @ CHR ''/'' # b @ CHR ''/'' # c) = [a, b, c]"
    and "matches_slash_date n (a @ CHR ''/'' # b @ CHR ''/'' # c)"
proof -
  from assms have na: "CHR ''/'' \<notin> set a" and nb: "CHR ''/'' \<notin> set b" and nc: "CHR ''/'' \<notin> set c"
    by (auto simp: digits_between_def digits_notin)
  show sp: "js_split CHR ''/'' (a @ CHR ''/'' # b @ CHR ''/'' # c) = [a, b, c]"
    by (simp add: js_split_append [OF na] js_split_append [OF nb] js_split_no_sep [OF nc])
  show "matches_slash_date n (a @ CHR ''/'' # b @ CHR ''/'' # c)"
    using assms by (simp add: matches_slash_date_def sp)
qed

lemma slash_date_4_not_2: "matches_slash_date 4 t \<Longrightarrow> \<not> matches_slash_date 2 t"
  by (auto simp: matches_slash_date_def digits_between_def split: list.splits)

text \<open>
  Claim C6 fails on the code. The fourth test of \<open>parseDate\<close> (the American format of its
  comment) is the same pattern as the second, so it is never reached: every text of the
  shape \<open>x/y/YYYY\<close> is read by the second format, with the first component as the day
  and the second as the month.
\<close>

theorem parseDate_four_digit_year_day_first:
  assumes "s \<noteq> []" and "matches_slash_date 4 (trim s)"
  shows "parseDate dp (Some s) =
           Inr (Some (new_Date (parseInt (js_split CHR ''/'' (trim s) ! 2))
                               (parseInt (js_split CHR ''/'' (trim s) ! 1) - 1)
                               (parseInt (js_split CHR ''/'' (trim s) ! 0))))"
  using assms slash_date_4_not_2 [OF assms(2)]
  by (simp add: parseDate_def Let_def)

text \<open>
  \<open>12/25/2023\<close> is read as day 12 of month 25 of 2023, which \<open>Date\<close> carries over to
  12 January 2025, and not as 25 December 2023.
\<close>

theorem parseDate_four_digit_year_day_first_witness:
  "parseDate (\<lambda>_. None) (Some ''12/25/2023'') = Inr (Some (Date 2025 0 12))"
proof -
  have t: "trim ''12/25/2023'' = ''12/25/2023''"
    by (simp add: trim_def isWhiteSpace_def)
  have m: "matches_slash_date 4 ''12/25/2023''"
    by (simp add: matches_slash_date_def digits_between_def isDigit_def)
  have d: "new_Date 2023 24 12 = Date 2025 0 12"
    by (simp add: new_Date_def daysInMonth_def)
  show ?thesis
    using parseDate_four_digit_year_day_first [of "''12/25/2023''" "\<lambda>_. None"] m
    by (simp add: t d parseInt_def digitsValue_def digitValue_def)
qed

lemma day_carry_valid:
  "1 \<le> d \<Longrightarrow> d \<le> daysInMonth y m \<Longrightarrow> day_carry y m d = Date y m d"
  by simp

lemma trim_digits:
  assumes "s \<noteq> []" "isDigit (hd s)" "isDigit (last s)"
  shows "trim s = s"
  using assms by (intro trim_id) (auto simp: isDigit_other)

text \<open>
  Claim C9, amended. For a text \<open>D/M/YY\<close> (one or two digits for the day and the month,
  two for the year) whose month is 1 to 12 and whose day exists in that month of the
  year 2000 + YY, the parsed date is that day and month of the year 2000 + YY.
\<close>

theorem parseDate_two_digit_year:
  assumes d: "digits_between 1 2 d" and m: "digits_between 1 2 m" and y: "digits_between 2 2 y"
    and month: "1 \<le> parseInt m" "parseInt m \<le> 12"
    and day: "1 \<le> parseInt d" "parseInt d \<le> daysInMonth (2000 + parseInt y) (parseInt m - 1)"
  shows "\<exists>date. parseDate dp (Some (d @ ''/'' @ m @ ''/'' @ y)) = Inr (Some date) \<and>
                getFullYear date = 2000 + parseInt y \<and>
                getMonth date = parseInt m - 1 \<and> getDate date = parseInt d"
proof -
  let ?s = "d @ CHR ''/'' # m @ CHR ''/'' # y"
  have ne: "?s \<noteq> []" by simp
  from d have "d \<noteq> []" "isDigit (hd d)"
    by (cases d; auto simp: digits_between_def)+
  then have h: "isDigit (hd ?s)" by simp
  from y have "y \<noteq> []" "isDigit (last y)"
    by (cases y rule: rev_cases; auto simp: digits_between_def)+
  then have l: "isDigit (last ?s)" by simp
  have t: "trim ?s = ?s" by (rule trim_digits [OF ne h l])
  note sp = slash_date_split [OF d m y]
  have yy: "0 \<le> parseInt y" by (rule parseInt_nonneg)
  have nd: "new_Date (parseInt y + 2000) (parseInt m - 1) (parseInt d)
              = Date (2000 + parseInt y) (parseInt m - 1) (parseInt d)"
    using yy month day by (simp add: new_Date_def add.commute)
  have "parseDate dp (Some (d @ ''/'' @ m @ ''/'' @ y)) =
          Inr (Some (Date (2000 + parseInt y) (parseInt m - 1) (parseInt d)))"
    using sp nd by (simp add: parseDate_def Let_def t)
  then show ?thesis by simp
qed

theorem parseDate_two_digit_year_witness:
  "\<exists>date. parseDate (\<lambda>_. None) (Some ''29/2/24'') = Inr (Some date) \<and>
          getFullYear date = 2024 \<and> getMonth date = 1 \<and> getDate date = 29"
proof -
  have v: "parseInt ''29'' = 29" "parseInt ''2'' = 2" "parseInt ''24'' = 24"
    by (simp_all add: parseInt_def digitsValue_def digitValue_def)
  show ?thesis
    using parseDate_two_digit_year [of "''29''" "''2''" "''24''" "\<lambda>_. None"]
    by (simp add: v digits_between_def isDigit_def daysInMonth_def isLeapYear_def)
qed

text \<open>
  Claim C9 fails as stated: \<open>1/13/24\<close> matches the two-digit-year pattern, is accepted, and
  its month 13 carries into the next year, so the year of the result is 2025 and not 2024.
\<close>

theorem parseDate_two_digit_year_counterexample:
  "matches_slash_date 2 ''1/13/24'' \<and>
   parseDate (\<lambda>_. None) (Some ''1/13/24'') = Inr (Some (Date 2025 0 1)) \<and>
   getFullYear (Date 2025 0 1) \<noteq> 2000 + 24"
proof -
  have t: "trim ''1/13/24'' = ''1/13/24''"
    by (simp add: trim_def isWhiteSpace_def)
  have m: "matches_slash_date 2 ''1/13/24''"
    by (simp add: matches_slash_date_def digits_between_def isDigit_def)
  have d: "new_Date 2024 12 1 = Date 2025 0 1"
    by (simp add: new_Date_def daysInMonth_def)
  show ?thesis
    using m by (simp add: parseDate_def Let_def t d parseInt_def digitsValue_def digitValue_def)
qed

section \<open>Batch persistence: claim C1\<close>

lemma insert_individually_length:
  "length (fst (insert_individually env now uid i ts w)) = length ts"
  by (induction ts arbitrary: i w) (simp_all add: split_beta)

lemma count_one_sum:
  "count_one now uid i r (tr, res, c) = (tr', res', c') \<Longrightarrow>
   successCount c' + errorCount c' = successCount c + errorCount c + 1 \<and>
   length res' + successCount c = length res + successCount c'"
  by (cases r) (auto simp: count_one_def)

lemma count_settled_sum:
  "count_settled now uid i rs (tr, res, c) = (tr', res', c') \<Longrightarrow>
   successCount c' + errorCount c' = successCount c + errorCount c + length rs \<and>
   length res' + successCount c = length res + successCount c'"
proof (induction rs arbitrary: i tr res c)
  case Nil
  then show ?case by simp
next
  case (Cons r rs)
  obtain tr1 res1 c1 where one: "count_one now uid i r (tr, res, c) = (tr1, res1, c1)"
    by (cases "count_one now uid i r (tr, res, c)") auto
  from Cons.prems one have "count_settled now uid (i + 1) rs (tr1, res1, c1) = (tr', res', c')"
    by simp
  from Cons.IH [OF this] count_one_sum [OF one] show ?case
    by simp
qed

text \<open>
  Claim C1. Whenever \<open>insertMany\<close> keeps its contract (it returns no more documents
  than the batch holds), the success count and the error count that
  \<open>processBatchStreamingAsync\<close> returns add up to the length of the batch, on the bulk
  path, on the fallback path and on the path through the outer \<open>catch\<close>; and the success
  count is the number of documents added to \<open>results\<close>, so a record saved by the bulk
  insert is not counted again by the fallback.
\<close>

theorem batch_counts_add_up:
  assumes "insertMany_contract env"
  shows "case processBatchStreamingAsync env now uid batch results w of
           (w', results', c) \<Rightarrow>
             successCount c + errorCount c = length batch \<and>
             length results' = length results + successCount c"
proof -
  obtain bulk d1 where im: "insertMany env (db w) batch = (bulk, d1)"
    by (cases "insertMany env (db w) batch")
  show ?thesis
  proof (cases bulk)
    case (Inl bulkError)
    show ?thesis
    proof (cases "message_of bulkError")
      case (Inl error)
      with im \<open>bulk = Inl bulkError\<close> show ?thesis
        by (simp add: processBatchStreamingAsync_def Let_def)
    next
      case (Inr m)
      obtain outcomes w2 where ii:
        "insert_individually env now uid 0 batch (w\<lparr>db := d1\<rparr>) = (outcomes, w2)"
        by (cases "insert_individually env now uid 0 batch (w\<lparr>db := d1\<rparr>)")
      then have len: "length outcomes = length batch"
        using insert_individually_length [of env now uid 0 batch "w\<lparr>db := d1\<rparr>"] by simp
      obtain tr results1 c1 where cs:
        "count_settled now uid 0 outcomes (tracker w2, results, \<lparr>successCount = 0, errorCount = 0\<rparr>)
           = (tr, results1, c1)"
        by (cases "count_settled now uid 0 outcomes
                     (tracker w2, results, \<lparr>successCount = 0, errorCount = 0\<rparr>)") auto
      from count_settled_sum [OF cs] len
      have "successCount c1 + errorCount c1 = length batch"
           "length results1 = length results + successCount c1"
        by simp_all
      with im \<open>bulk = Inl bulkError\<close> Inr ii cs show ?thesis
        by (simp add: processBatchStreamingAsync_def Let_def)
    qed
  next
    case (Inr saved)
    with assms im have le: "length saved \<le> length batch"
      by (auto simp: insertMany_contract_def)
    show ?thesis
    proof (cases "countDocuments env d1")
      case (Inl bulkError)
      show ?thesis
      proof (cases "message_of bulkError")
        case (Inl error)
        with im \<open>bulk = Inr saved\<close> \<open>countDocuments env d1 = Inl bulkError\<close> show ?thesis
          by (simp add: processBatchStreamingAsync_def Let_def)
      next
        case (Inr m)
        obtain outcomes w2 where ii:
          "insert_individually env now uid 0 batch (w\<lparr>db := d1\<rparr>) = (outcomes, w2)"
          by (cases "insert_individually env now uid 0 batch (w\<lparr>db := d1\<rparr>)")
        then have len: "length outcomes = length batch"
          using insert_individually_length [of env now uid 0 batch "w\<lparr>db := d1\<rparr>"] by simp
        obtain tr results1 c1 where cs:
          "count_settled now uid 0 outcomes (tracker w2, results, \<lparr>successCount = 0, errorCount = 0\<rparr>)
             = (tr, results1, c1)"
          by (cases "count_settled now uid 0 outcomes
                       (tracker w2, results, \<lparr>successCount = 0, errorCount = 0\<rparr>)") auto
        from count_settled_sum [OF cs] len
        have "successCount c1 + errorCount c1 = length batch"
             "length results1 = length results + successCount c1"
          by simp_all
        with im \<open>bulk = Inr saved\<close> \<open>countDocuments env d1 = Inl bulkError\<close> Inr ii cs
        show ?thesis
          by (simp add: processBatchStreamingAsync_def Let_def)
      qed
    next
      case (Inr n)
      with im \<open>bulk = Inr saved\<close> le show ?thesis
        by (simp add: processBatchStreamingAsync_def Let_def)
    qed
  qed
qed

text \<open>
  A batch of two records, of which \<open>create\<close> refuses the second: the bulk insert saves
  both; when the bulk insert throws, the fallback saves one and counts one error; when
  it throws a nullish value, the outer \<open>catch\<close> counts two errors.
\<close>

theorem batch_counts_add_up_witness:
  "insertMany_contract (sample_env bulk_ok) \<and>
   snd (snd (processBatchStreamingAsync (sample_env bulk_ok) 0 ''u1''
               [sample_tx ''Mercado'', sample_tx ''dup''] [] sample_server))
     = \<lparr>successCount = 2, errorCount = 0\<rparr> \<and>
   snd (snd (processBatchStreamingAsync (sample_env bulk_fails) 0 ''u1''
               [sample_tx ''Mercado'', sample_tx ''dup''] [] sample_server))
     = \<lparr>successCount = 1, errorCount = 1\<rparr> \<and>
   snd (snd (processBatchStreamingAsync (sample_env bulk_nullish) 0 ''u1''
               [sample_tx ''Mercado'', sample_tx ''dup''] [] sample_server))
     = \<lparr>successCount = 0, errorCount = 2\<rparr>"
proof -
  have c: "insertMany_contract (sample_env bulk_ok)"
    by (simp add: insertMany_contract_def sample_env_def bulk_ok_def)
  have 1: "snd (snd (processBatchStreamingAsync (sample_env bulk_ok) 0 ''u1''
               [sample_tx ''Mercado'', sample_tx ''dup''] [] sample_server))
     = \<lparr>successCount = 2, errorCount = 0\<rparr>"
    using batch_counts_add_up [OF c, where now = 0 and uid = "''u1''"
        and batch = "[sample_tx ''Mercado'', sample_tx ''dup'']" and results = "[]"
        and w = sample_server]
    by (simp add: processBatchStreamingAsync_def sample_env_def bulk_ok_def Let_def)
  have 2: "snd (snd (processBatchStreamingAsync (sample_env bulk_fails) 0 ''u1''
               [sample_tx ''Mercado'', sample_tx ''dup''] [] sample_server))
     = \<lparr>successCount = 1, errorCount = 1\<rparr>"
    by (simp add: processBatchStreamingAsync_def sample_env_def bulk_fails_def Let_def
        message_of_def insert_one_def createBillData_def sample_tx_def count_one_def)
  have 3: "snd (snd (processBatchStreamingAsync (sample_env bulk_nullish) 0 ''u1''
               [sample_tx ''Mercado'', sample_tx ''dup''] [] sample_server))
     = \<lparr>successCount = 0, errorCount = 2\<rparr>"
    by (simp add: processBatchStreamingAsync_def sample_env_def bulk_nullish_def Let_def
        message_of_def)
  from c 1 2 3 show ?thesis by simp
qed

section \<open>Properties of the streaming import\<close>

lemma totalRows_recompute [simp]: "totalRows (recompute now s) = totalRows s"
  by (simp add: recompute_def Let_def)

lemma totalRows_assign [simp]: "totalRows (assign s upd) = totalRows s"
  by (simp add: assign_def)

lemma keeps_broadcastToUser [simp]: "keeps uid n (broadcastToUser tr u msg) = keeps uid n tr"
  by (simp add: keeps_def)

lemma keeps_updateProgress: "keeps uid n tr \<Longrightarrow> keeps uid n (updateProgress tr now uid' upd)"
  by (cases "importSessions tr uid'")
     (auto simp: keeps_def updateProgress_def Let_def split: option.splits)

lemma keeps_store:
  "keeps uid n tr \<Longrightarrow> importSessions tr uid' = Some s0 \<Longrightarrow> totalRows s' = totalRows s0 \<Longrightarrow>
   keeps uid n (tr\<lparr>importSessions := (importSessions tr)(uid' \<mapsto> s')\<rparr>)"
  by (auto simp: keeps_def split: option.splits)

lemma keeps_addError: "keeps uid n tr \<Longrightarrow> keeps uid n (addError tr now uid' err r)"
proof (cases "importSessions tr uid'")
  case None
  then show "keeps uid n tr \<Longrightarrow> ?thesis" by (simp add: addError_def)
next
  case (Some s0)
  assume k: "keeps uid n tr"
  show ?thesis
    by (auto simp: addError_def Let_def Some intro!: keeps_updateProgress keeps_store [OF k Some])
qed

lemma keeps_insert_one:
  "keeps uid n (tracker w) \<Longrightarrow> keeps uid n (tracker (snd (insert_one env now uid' i t w)))"
  by (auto simp: insert_one_def keeps_addError split: prod.splits sum.splits)

lemma keeps_insert_individually:
  "keeps uid n (tracker w) \<Longrightarrow>
   keeps uid n (tracker (snd (insert_individually env now uid' i ts w)))"
proof (induction ts arbitrary: i w)
  case Nil
  then show ?case by simp
next
  case (Cons t ts)
  from Cons.IH [OF keeps_insert_one [OF Cons.prems]]
  show ?case by (simp add: split_beta)
qed

lemma keeps_count_one:
  "keeps uid n (fst acc) \<Longrightarrow> keeps uid n (fst (count_one now uid' i r acc))"
  by (cases acc; cases r) (auto simp: count_one_def keeps_addError)

lemma keeps_count_settled:
  "keeps uid n (fst acc) \<Longrightarrow> keeps uid n (fst (count_settled now uid' i rs acc))"
  by (induction rs arbitrary: i acc) (simp_all add: keeps_count_one)

lemma tracker_db_update [simp]: "tracker (w\<lparr>db := d\<rparr>) = tracker w"
  by simp

lemma keeps_processBatch:
  assumes "keeps uid n (tracker w)"
  shows "keeps uid n (tracker (fst (processBatchStreamingAsync env now uid' batch results w)))"
proof -
  obtain bulk d1 where im: "insertMany env (db w) batch = (bulk, d1)"
    by (cases "insertMany env (db w) batch")
  have k1: "keeps uid n (tracker (w\<lparr>db := d1\<rparr>))" using assms by simp
  have fb: "keeps uid n (fst (count_settled now uid' 0
                 (fst (insert_individually env now uid' 0 batch (w\<lparr>db := d1\<rparr>)))
                 (tracker (snd (insert_individually env now uid' 0 batch (w\<lparr>db := d1\<rparr>))), results,
                  \<lparr>successCount = 0, errorCount = 0\<rparr>)))"
    by (rule keeps_count_settled) (simp add: keeps_insert_individually [OF k1])
  show ?thesis
    using im assms fb
    by (auto simp: processBatchStreamingAsync_def Let_def split_beta keeps_addError
        split: sum.splits)
qed

lemma keeps_flush_batch:
  "keeps uid n (tracker (snd st)) \<Longrightarrow> keeps uid n (tracker (snd (flush_batch env now uid' st)))"
  using keeps_processBatch [of uid n "snd st" env now uid' "p_currentBatch (fst st)" "p_results (fst st)"]
  by (simp add: flush_batch_def split_beta Let_def)

lemma processedCount_flush_batch [simp]:
  "processedCount (fst (flush_batch env now uid st)) = processedCount (fst st)"
  by (simp add: flush_batch_def split_beta Let_def)

lemma keeps_transform:
  "keeps uid n (tracker (snd st)) \<Longrightarrow>
   keeps uid n (tracker (snd (transform env ud mapping cm user uid' r st)))"
  by (auto simp: transform_def Let_def split_beta keeps_addError keeps_updateProgress
      keeps_flush_batch split: sum.splits)

lemma processedCount_transform:
  "processedCount (fst (transform env ud mapping cm user uid r st)) = processedCount (fst st) + 1"
  by (auto simp: transform_def Let_def split_beta split: sum.splits)

lemma keeps_fold_transform:
  "keeps uid n (tracker (snd st)) \<Longrightarrow>
   keeps uid n (tracker (snd (fold (transform env ud mapping cm user uid') rows st)))"
  by (induction rows arbitrary: st) (simp_all add: keeps_transform)

lemma processedCount_fold_transform:
  "processedCount (fst (fold (transform env ud mapping cm user uid) rows st))
     = processedCount (fst st) + length rows"
  by (induction rows arbitrary: st) (simp_all add: processedCount_transform)

lemma status_recompute [simp]: "status (recompute now s) = status s"
  by (simp add: recompute_def Let_def)

lemma processedRows_recompute [simp]: "processedRows (recompute now s) = processedRows s"
  by (simp add: recompute_def Let_def)

lemma progress_recompute [simp]:
  "progress (recompute now s) = percent (processedRows s) (totalRows s)"
  by (simp add: recompute_def Let_def percent_def)

lemma keeps_cleanup [simp]: "tracker (cleanup ud uid w) = tracker w"
  by (simp add: cleanup_def)

lemma final_update_session:
  assumes "keeps uid n tr"
  shows "\<exists>s. importSessions (updateProgress tr now uid (counts_update v None (Some finalizing))) uid
               = Some s \<and>
             status s = finalizing \<and> totalRows s = n \<and>
             processedRows s = processedCount v \<and>
             progress s = percent (processedCount v) n"
proof -
  from assms obtain s0 where s0: "importSessions tr uid = Some s0" "totalRows s0 = n"
    by (auto simp: keeps_def split: option.splits)
  show ?thesis
    by (simp add: importSessions_updateProgress [OF s0(1)] s0(2) assign_def counts_update_def)
qed

text \<open>The state in which a stream that reached its end leaves the import.\<close>

lemma processImport_end:
  "snd (processImportWithStreaming env ud mapping cm user uid rows None w) =
     (let st = fold (transform env ud mapping cm user uid) rows
                 (\<lparr>p_results = [], processedCount = 0, successfulCount = 0, p_errorCount = 0,
                   p_currentBatch = []\<rparr>, w);
          now = clock env (processedCount (fst st) + 1);
          st1 = (if p_currentBatch (fst st) \<noteq> [] then flush_batch env now uid st else st)
      in cleanup ud uid
           ((snd st1)\<lparr>tracker := updateProgress (tracker (snd st1)) now uid
                                  (counts_update (fst st1) None (Some finalizing))\<rparr>))"
  by (simp add: processImportWithStreaming_def Let_def split_beta)

lemma stream_end_state:
  assumes "keeps uid n (tracker w)"
  shows "\<exists>s. importSessions
               (tracker (snd (processImportWithStreaming env ud mapping cm user uid rows None w))) uid
               = Some s \<and>
             status s = finalizing \<and> totalRows s = n \<and>
             processedRows s = length rows \<and> progress s = percent (length rows) n"
proof -
  define st where "st = fold (transform env ud mapping cm user uid) rows
                 (\<lparr>p_results = [], processedCount = 0, successfulCount = 0, p_errorCount = 0,
                   p_currentBatch = []\<rparr>, w)"
  define now where "now = clock env (processedCount (fst st) + 1)"
  define st1 where "st1 = (if p_currentBatch (fst st) \<noteq> [] then flush_batch env now uid st else st)"
  have k: "keeps uid n (tracker (snd st))"
    unfolding st_def using assms by (intro keeps_fold_transform) simp
  have p: "processedCount (fst st) = length rows"
    unfolding st_def by (simp add: processedCount_fold_transform)
  have k1: "keeps uid n (tracker (snd st1))"
    using k by (simp add: st1_def keeps_flush_batch)
  have p1: "processedCount (fst st1) = length rows"
    using p by (simp add: st1_def)
  have e: "snd (processImportWithStreaming env ud mapping cm user uid rows None w) =
             cleanup ud uid
               ((snd st1)\<lparr>tracker := updateProgress (tracker (snd st1)) now uid
                                      (counts_update (fst st1) None (Some finalizing))\<rparr>)"
    unfolding processImport_end st_def now_def st1_def Let_def ..
  from final_update_session [OF k1, of now "fst st1"] p1
  show ?thesis
    unfolding e by simp
qed

lemma stream_end_result:
  "\<exists>r. fst (processImportWithStreaming env ud mapping cm user uid rows None w) = Inr r \<and>
        success r \<and> result_total r = Some (length rows)"
proof -
  let ?v0 = "\<lparr>p_results = [], processedCount = 0, successfulCount = 0, p_errorCount = 0,
               p_currentBatch = []\<rparr>"
  have p: "processedCount (fst (fold (transform env ud mapping cm user uid) rows (?v0, w))) = length rows"
    using processedCount_fold_transform [of env ud mapping cm user uid rows "(?v0, w)"] by simp
  then show ?thesis
    by (simp add: processImportWithStreaming_def Let_def split_beta)
qed

lemma stream_error_result:
  "fst (processImportWithStreaming env ud mapping cm user uid rows (Some e) w) = Inl e"
  by (simp add: processImportWithStreaming_def Let_def split_beta)

lemma keeps_processImport:
  assumes "keeps uid n (tracker w)"
  shows "keeps uid n (tracker (snd (processImportWithStreaming env ud mapping cm user uid' rows se w)))"
proof -
  let ?v0 = "\<lparr>p_results = [], processedCount = 0, successfulCount = 0, p_errorCount = 0,
               p_currentBatch = []\<rparr>"
  let ?st = "fold (transform env ud mapping cm user uid') rows (?v0, w)"
  have k: "keeps uid n (tracker (snd ?st))"
    using keeps_fold_transform [of uid n "(?v0, w)"] assms by simp
  show ?thesis
    using k
    by (cases se)
       (simp_all add: processImportWithStreaming_def Let_def split_beta keeps_flush_batch
          keeps_updateProgress)
qed

lemma completeImportSession_session:
  assumes "importSessions tr uid = Some s0"
  shows "\<exists>s. importSessions (completeImportSession tr now uid res) uid = Some s \<and>
             status s = (if success res then completed else failed) \<and>
             result s = Some res \<and> progress s = progress s0"
  using assms by (simp add: completeImportSession_def Let_def)

lemma keeps_startImportSession:
  "keeps uid n (fst (startImportSession tr now uid u n fname))"
  by (simp add: startImportSession_def Let_def keeps_def)

section \<open>The end of an import: claims C5 and C4\<close>

text \<open>
  Claim C5. When the requester owns the staged upload and the stream of its rows reaches
  its end, the import that \<open>confirmImport\<close> starts ends with the session in the status
  \<open>completed\<close>, holding a result with \<open>success\<close> true that counts every row of the
  stream, whatever the rows were and however the database answered.
\<close>

theorem stream_end_completes_successfully:
  assumes "tempStorage w uid = Some ud" and "ud_userId ud = user"
  shows "\<exists>s r. importSessions
                 (tracker (snd (confirmImport env w uid bm bc user rows None))) uid = Some s \<and>
               status s = completed \<and> result s = Some r \<and> success r \<and>
               result_total r = Some (length rows)"
proof -
  define mapping where "mapping = (case bm of None \<Rightarrow> pv_mapping (ud_preview ud) | Some m \<Rightarrow> m)"
  define cm where "cm = (case bc of None \<Rightarrow> Map.empty | Some c \<Rightarrow> c)"
  define n where "n = pv_totalRows (ud_preview ud)"
  define tr1 where "tr1 = fst (startImportSession (tracker w) (clock env 0) uid user n (ud_filename ud))"
  define out where "out = processImportWithStreaming env ud mapping cm user uid rows None
                            (w\<lparr>tracker := tr1\<rparr>)"
  have k1: "keeps uid n (tracker (w\<lparr>tracker := tr1\<rparr>))"
    by (simp add: tr1_def keeps_startImportSession)
  have "keeps uid n (tracker (snd out))"
    unfolding out_def by (rule keeps_processImport [OF k1])
  then obtain s0 where s0: "importSessions (tracker (snd out)) uid = Some s0"
    by (auto simp: keeps_def split: option.splits)
  obtain r where r: "fst out = Inr r" "success r" "result_total r = Some (length rows)"
    unfolding out_def using stream_end_result by blast
  from completeImportSession_session [OF s0, of "clock env (length rows + 2)" r] r
  obtain s where s: "importSessions
      (completeImportSession (tracker (snd out)) (clock env (length rows + 2)) uid r) uid = Some s"
      "status s = completed" "result s = Some r"
    by auto
  have "snd (confirmImport env w uid bm bc user rows None) =
          (snd out)\<lparr>tracker := completeImportSession (tracker (snd out))
                                   (clock env (length rows + 2)) uid r\<rparr>"
    using assms r(1)
    by (simp add: confirmImport_def Let_def split_beta out_def tr1_def n_def mapping_def cm_def)
  with s r show ?thesis by simp
qed

text \<open>
  A file of four rows, one with empty cells and one whose date cannot be parsed, with a
  bulk insert that throws and a \<open>create\<close> that refuses a record: the session is
  \<open>completed\<close> with \<open>success\<close> true.
\<close>

theorem stream_end_completes_successfully_witness:
  "\<exists>s r. importSessions
           (tracker (snd (confirmImport (sample_env bulk_fails) sample_server ''u1'' None None
                            ''alice'' rows_with_error None))) ''u1'' = Some s \<and>
         status s = completed \<and> result s = Some r \<and> success r \<and> result_total r = Some 4 \<and>
         imported r = Some 2 \<and> result_errors r = Some 1"
proof -
  have h1: "tempStorage sample_server ''u1'' = Some sample_staged"
    by (simp add: sample_server_def)
  have h2: "ud_userId sample_staged = ''alice''"
    by (simp add: sample_staged_def)
  have l: "length rows_with_error = 4"
    by (simp add: rows_with_error_def sample_rows_def)
  have ev: "map_option (\<lambda>s. map_option (\<lambda>r. (imported r, result_errors r)) (result s))
              (importSessions
                 (tracker (snd (confirmImport (sample_env bulk_fails) sample_server ''u1'' None None
                                  ''alice'' rows_with_error None))) ''u1'')
            = Some (Some (Some 2, Some 1))"
    by code_simp
  from stream_end_completes_successfully [OF h1 h2, of "sample_env bulk_fails" None None
      rows_with_error] ev
  show ?thesis
    unfolding l by auto
qed

text \<open>
  Claim C4 fails on the code at the final update. When the stream has reached its end
  the session has the status \<open>finalizing\<close>, and its progress is the rounded percentage
  of the rows of the stream over the total of the preview: it is 100 only when these two
  counts agree (nearly), and nothing else sets it to 100.
\<close>

theorem finalizing_progress_is_percent:
  assumes "keeps uid n (tracker w)"
  shows "\<exists>s. importSessions
               (tracker (snd (processImportWithStreaming env ud mapping cm user uid rows None w))) uid
               = Some s \<and>
             status s = finalizing \<and> totalRows s = n \<and>
             processedRows s = length rows \<and> progress s = percent (length rows) n"
  using stream_end_state [OF assms, of env ud mapping cm user rows] by blast

lemma valid_sample_rows: "preview_rowCount sample_rows generic_csv = 2"
  by (simp add: preview_rowCount_def sample_rows_def isValidDataRow_def trim_def isWhiteSpace_def)

text \<open>
  The staged file of three rows, the second with empty cells only: the preview counts
  two valid rows, the import processes three, and the progress at \<open>finalizing\<close> is 150.
\<close>

theorem finalizing_progress_is_percent_witness:
  "\<exists>s. importSessions
         (tracker (snd (processImportWithStreaming (sample_env bulk_ok) sample_staged sample_mapping
                          Map.empty ''alice'' ''u1'' sample_rows None started_server))) ''u1''
         = Some s \<and>
       status s = finalizing \<and> totalRows s = 2 \<and> processedRows s = 3 \<and>
       progress s = Fin 150"
proof -
  have k: "keeps ''u1'' 2 (tracker started_server)"
    by (simp add: started_server_def sample_staged_def valid_sample_rows keeps_def
        startImportSession_def Let_def sample_server_def)
  have p: "percent (length sample_rows) 2 = Fin 150"
    by (simp add: percent_def num_def sample_rows_def) (rule floor_unique, simp_all)
  from finalizing_progress_is_percent [OF k, of "sample_env bulk_ok" sample_staged sample_mapping
      Map.empty "''alice''" sample_rows] p
  show ?thesis
    by (auto simp: sample_rows_def)
qed

section \<open>The progress never decreases\<close>

lemma js_le_trans: "js_le a b \<Longrightarrow> js_le b c \<Longrightarrow> js_le a c"
  by (cases a; cases b; cases c) auto

lemma percent_Fin:
  "0 < n \<Longrightarrow> percent p n = Fin (of_int \<lfloor>(of_nat p :: rat) / of_nat n * 100 + 1 / 2\<rfloor>)"
  by (simp add: percent_def num_def)

lemma percent_mono:
  assumes "0 < n" "p \<le> q"
  shows "js_le (percent p n) (percent q n)"
proof -
  have "(of_nat p :: rat) / of_nat n \<le> of_nat q / of_nat n"
    using assms by (simp add: divide_right_mono)
  then have "(of_nat p :: rat) / of_nat n * 100 \<le> of_nat q / of_nat n * 100"
    by (rule mult_right_mono) simp
  then have "(of_nat p :: rat) / of_nat n * 100 + 1 / 2 \<le> of_nat q / of_nat n * 100 + 1 / 2"
    by (rule add_right_mono)
  then have "\<lfloor>(of_nat p :: rat) / of_nat n * 100 + 1 / 2\<rfloor>
               \<le> \<lfloor>(of_nat q :: rat) / of_nat n * 100 + 1 / 2\<rfloor>"
    by (rule floor_mono)
  then show ?thesis
    unfolding percent_Fin [OF assms(1)] by simp
qed

lemma percent_refl: "0 < n \<Longrightarrow> js_le (percent p n) (percent p n)"
  by (simp add: percent_mono)

text \<open>What a broadcast adds to the log: copies of the message.\<close>

lemma delivered_removeClient [simp]: "delivered (removeClient tr ws) = delivered tr"
  by (simp add: removeClient_def Let_def split: option.splits)

lemma delivered_fold_send_to:
  "\<exists>k. map snd (delivered (fold (send_to msg) wss tr)) = map snd (delivered tr) @ replicate k msg"
proof (induction wss arbitrary: tr)
  case Nil
  show ?case by (rule exI [of _ 0]) simp
next
  case (Cons ws wss)
  from Cons [of "send_to msg ws tr"] obtain k where
    k: "map snd (delivered (fold (send_to msg) wss (send_to msg ws tr)))
          = map snd (delivered (send_to msg ws tr)) @ replicate k msg"
    by blast
  show ?case
  proof (cases "ws_open ws \<and> \<not> ws_send_throws ws")
    case True
    then have "map snd (delivered (send_to msg ws tr)) = map snd (delivered tr) @ replicate 1 msg"
      by (simp add: send_to_def)
    with k have "map snd (delivered (fold (send_to msg) (ws # wss) tr))
                   = map snd (delivered tr) @ replicate (Suc k) msg"
      by (simp add: replicate_app_Cons_same)
    then show ?thesis by blast
  next
    case False
    then have "delivered (send_to msg ws tr) = delivered tr"
      by (auto simp: send_to_def)
    with k show ?thesis by auto
  qed
qed

lemma progress_trace_broadcast:
  "\<exists>k. progress_trace (broadcastToUser tr u msg)
         = progress_trace tr @ replicate k (progress (msg_session msg))"
proof (cases "clients tr u")
  case None
  then show ?thesis by (auto simp: broadcastToUser_def intro: exI [of _ 0])
next
  case (Some wss)
  from delivered_fold_send_to [of msg wss tr] obtain k where
    k: "map snd (delivered (fold (send_to msg) wss tr)) = map snd (delivered tr) @ replicate k msg"
    by blast
  have "progress_trace (broadcastToUser tr u msg)
          = map (\<lambda>m. progress (msg_session m)) (map snd (delivered (fold (send_to msg) wss tr)))"
    by (simp add: progress_trace_def broadcastToUser_def Some comp_def)
  also have "\<dots> = progress_trace tr @ replicate k (progress (msg_session msg))"
    by (simp add: k progress_trace_def comp_def)
  finally show ?thesis by blast
qed

lemma sorted_wrt_replicate_refl: "js_le y y \<Longrightarrow> sorted_wrt js_le (replicate k y)"
  by (induction k) auto

lemma sorted_wrt_append_replicate:
  assumes "sorted_wrt js_le xs" "list_all (\<lambda>x. js_le x y) xs" "js_le y y"
  shows "sorted_wrt js_le (xs @ replicate k y)" "list_all (\<lambda>x. js_le x y) (xs @ replicate k y)"
  using assms by (auto simp: sorted_wrt_append list_all_iff sorted_wrt_replicate_refl)

lemma progress_trace_store [simp]:
  "progress_trace (tr\<lparr>importSessions := m\<rparr>) = progress_trace tr"
  by (simp add: progress_trace_def)

lemma steady_store_broadcast:
  assumes st: "steady uid n p tr" and s0: "importSessions tr uid = Some s0" and n: "0 < n"
    and t: "totalRows s' = n" and ge: "processedRows s0 \<le> processedRows s'"
    and le: "processedRows s' \<le> q" and pr: "progress s' = percent (processedRows s') n"
    and msg: "msg_session msg = s'"
  shows "steady uid n q
           (broadcastToUser (tr\<lparr>importSessions := (importSessions tr)(uid \<mapsto> s')\<rparr>) u msg)"
proof -
  let ?tr1 = "tr\<lparr>importSessions := (importSessions tr)(uid \<mapsto> s')\<rparr>"
  from st s0 have old: "sorted_wrt js_le (progress_trace tr)"
    "list_all (\<lambda>x. js_le x (percent (processedRows s0) n)) (progress_trace tr)"
    by (simp_all add: steady_def)
  have up: "js_le (percent (processedRows s0) n) (percent (processedRows s') n)"
    by (rule percent_mono [OF n ge])
  have all: "list_all (\<lambda>x. js_le x (percent (processedRows s') n)) (progress_trace tr)"
    using old(2) up by (auto simp: list_all_iff intro: js_le_trans)
  have rf: "js_le (percent (processedRows s') n) (percent (processedRows s') n)"
    by (rule percent_refl [OF n])
  obtain k where k: "progress_trace (broadcastToUser ?tr1 u msg)
                       = progress_trace tr @ replicate k (percent (processedRows s') n)"
    using progress_trace_broadcast [of ?tr1 u msg] msg pr by auto
  show ?thesis
    using sorted_wrt_append_replicate [OF old(1) all rf, of k] t le pr
    by (simp add: steady_def k)
qed

lemma processedRows_assign_counts [simp]:
  "processedRows (assign s0 (counts_update v b s)) = processedCount v"
  by (simp add: assign_def counts_update_def)

lemma processedRows_assign_none [simp]:
  "processedRows (assign s0 no_update) = processedRows s0"
  by (simp add: assign_def no_update_def)

lemma steady_weaken: "steady uid n p tr \<Longrightarrow> p \<le> q \<Longrightarrow> steady uid n q tr"
  by (auto simp: steady_def split: option.splits)

lemma steady_updateProgress_counts:
  assumes st: "steady uid n p tr" and n: "0 < n" and pq: "p \<le> processedCount v"
  shows "steady uid n (processedCount v) (updateProgress tr now uid (counts_update v b s))"
proof -
  from st obtain s0 where s0: "importSessions tr uid = Some s0"
    "totalRows s0 = n" "processedRows s0 \<le> p"
    by (auto simp: steady_def split: option.splits)
  let ?s = "recompute now (assign s0 (counts_update v b s))"
  have pr: "processedRows ?s = processedCount v"
    by (simp add: assign_def counts_update_def)
  have "steady uid n (processedCount v)
          (broadcastToUser (tr\<lparr>importSessions := (importSessions tr)(uid \<mapsto> ?s)\<rparr>) (userId ?s)
             \<lparr>msg_type = progress_msg, msg_uploadId = uploadId ?s, msg_session = ?s\<rparr>)"
    using s0 pq by (intro steady_store_broadcast [OF st s0(1) n]) simp_all
  then show ?thesis
    by (simp add: updateProgress_def s0(1) Let_def)
qed

lemma steady_updateProgress_none:
  assumes st: "steady uid n p tr" and n: "0 < n"
  shows "steady uid n p (updateProgress tr now uid no_update)"
proof -
  from st obtain s0 where s0: "importSessions tr uid = Some s0"
    "totalRows s0 = n" "processedRows s0 \<le> p"
    by (auto simp: steady_def split: option.splits)
  let ?s = "recompute now (assign s0 no_update)"
  have pr: "processedRows ?s = processedRows s0"
    by (simp add: assign_def no_update_def)
  have "steady uid n p
          (broadcastToUser (tr\<lparr>importSessions := (importSessions tr)(uid \<mapsto> ?s)\<rparr>) (userId ?s)
             \<lparr>msg_type = progress_msg, msg_uploadId = uploadId ?s, msg_session = ?s\<rparr>)"
    using s0 by (intro steady_store_broadcast [OF st s0(1) n]) simp_all
  then show ?thesis
    by (simp add: updateProgress_def s0(1) Let_def)
qed

lemma steady_store_same:
  assumes st: "steady uid n p tr" and s0: "importSessions tr uid = Some s0"
    and same: "totalRows s' = totalRows s0" "processedRows s' = processedRows s0"
      "progress s' = progress s0"
  shows "steady uid n p (tr\<lparr>importSessions := (importSessions tr)(uid \<mapsto> s')\<rparr>)"
  using st s0 same by (simp add: steady_def)

lemma steady_addError:
  assumes st: "steady uid n p tr" and n: "0 < n"
  shows "steady uid n p (addError tr now uid err r)"
proof -
  from st obtain s0 where s0: "importSessions tr uid = Some s0"
    by (auto simp: steady_def split: option.splits)
  show ?thesis
    by (auto simp: addError_def Let_def s0
        intro!: steady_updateProgress_none [OF _ n] steady_store_same [OF st s0])
qed

lemma steady_insert_one:
  "steady uid n p (tracker w) \<Longrightarrow> 0 < n \<Longrightarrow>
   steady uid n p (tracker (snd (insert_one env now uid i t w)))"
  by (auto simp: insert_one_def steady_addError split: prod.splits sum.splits)

lemma steady_insert_individually:
  "steady uid n p (tracker w) \<Longrightarrow> 0 < n \<Longrightarrow>
   steady uid n p (tracker (snd (insert_individually env now uid i ts w)))"
proof (induction ts arbitrary: i w)
  case Nil
  then show ?case by simp
next
  case (Cons t ts)
  from Cons.IH [OF steady_insert_one [OF Cons.prems] Cons.prems(2)]
  show ?case by (simp add: split_beta)
qed

lemma steady_count_one:
  "steady uid n p (fst acc) \<Longrightarrow> 0 < n \<Longrightarrow> steady uid n p (fst (count_one now uid i r acc))"
  by (cases acc; cases r) (auto simp: count_one_def steady_addError)

lemma steady_count_settled:
  "steady uid n p (fst acc) \<Longrightarrow> 0 < n \<Longrightarrow>
   steady uid n p (fst (count_settled now uid i rs acc))"
  by (induction rs arbitrary: i acc) (simp_all add: steady_count_one)

lemma steady_processBatch:
  assumes "steady uid n p (tracker w)" and n: "0 < n"
  shows "steady uid n p (tracker (fst (processBatchStreamingAsync env now uid batch results w)))"
proof -
  obtain bulk d1 where im: "insertMany env (db w) batch = (bulk, d1)"
    by (cases "insertMany env (db w) batch")
  have k1: "steady uid n p (tracker (w\<lparr>db := d1\<rparr>))" using assms by simp
  have fb: "steady uid n p (fst (count_settled now uid 0
                 (fst (insert_individually env now uid 0 batch (w\<lparr>db := d1\<rparr>)))
                 (tracker (snd (insert_individually env now uid 0 batch (w\<lparr>db := d1\<rparr>))), results,
                  \<lparr>successCount = 0, errorCount = 0\<rparr>)))"
    by (rule steady_count_settled) (simp_all add: steady_insert_individually [OF k1 n] n)
  show ?thesis
    using im assms fb
    by (auto simp: processBatchStreamingAsync_def Let_def split_beta steady_addError
        split: sum.splits)
qed

lemma steady_flush_batch:
  "steady uid n p (tracker (snd st)) \<Longrightarrow> 0 < n \<Longrightarrow>
   steady uid n p (tracker (snd (flush_batch env now uid st)))"
  using steady_processBatch [of uid n p "snd st" env now "p_currentBatch (fst st)" "p_results (fst st)"]
  by (simp add: flush_batch_def split_beta Let_def)

lemma steady_transform:
  assumes st: "steady uid n (processedCount (fst st)) (tracker (snd st))" and n: "0 < n"
  shows "steady uid n (processedCount (fst (transform env ud mapping cm user uid r st)))
           (tracker (snd (transform env ud mapping cm user uid r st)))"
proof -
  let ?p = "processedCount (fst st)"
  have w: "steady uid n (Suc ?p) (tracker (snd st))"
    by (rule steady_weaken [OF st]) simp
  have a: "\<And>now err row. steady uid n (Suc ?p) (addError (tracker (snd st)) now uid err row)"
    by (rule steady_addError [OF w n])
  have u: "\<And>now v b s tr. steady uid n (Suc ?p) tr \<Longrightarrow> processedCount v = Suc ?p \<Longrightarrow>
             steady uid n (Suc ?p) (updateProgress tr now uid (counts_update v b s))"
    subgoal for now v b s tr
      using steady_updateProgress_counts [of uid n "Suc ?p" tr v now b s] n by simp
    done
  have f: "\<And>now v. steady uid n (Suc ?p) (tracker (snd (flush_batch env now uid (v, snd st))))"
    subgoal for now v
      using steady_flush_batch [of uid n "Suc ?p" "(v, snd st)" env now] w n by simp
    done
  show ?thesis
    by (auto simp: transform_def Let_def split_beta processedCount_transform a u f w
        split: sum.splits)
qed

lemma steady_fold_transform:
  "steady uid n (processedCount (fst st)) (tracker (snd st)) \<Longrightarrow> 0 < n \<Longrightarrow>
   steady uid n (processedCount (fst (fold (transform env ud mapping cm user uid) rows st)))
     (tracker (snd (fold (transform env ud mapping cm user uid) rows st)))"
  by (induction rows arbitrary: st) (simp_all add: steady_transform)

lemma steady_processImport:
  assumes st: "steady uid n 0 (tracker w)" and n: "0 < n"
  shows "\<exists>p. steady uid n p
               (tracker (snd (processImportWithStreaming env ud mapping cm user uid rows se w)))"
proof -
  define st0 where "st0 = fold (transform env ud mapping cm user uid) rows
                 (\<lparr>p_results = [], processedCount = 0, successfulCount = 0, p_errorCount = 0,
                   p_currentBatch = []\<rparr>, w)"
  define now where "now = clock env (processedCount (fst st0) + 1)"
  define st1 where "st1 = (if p_currentBatch (fst st0) \<noteq> [] then flush_batch env now uid st0 else st0)"
  have k: "steady uid n (processedCount (fst st0)) (tracker (snd st0))"
    unfolding st0_def using st by (intro steady_fold_transform [OF _ n]) simp
  show ?thesis
  proof (cases se)
    case (Some e)
    have "snd (processImportWithStreaming env ud mapping cm user uid rows (Some e) w)
            = cleanup ud uid (snd st0)"
      by (simp add: processImportWithStreaming_def Let_def split_beta st0_def)
    with k Some show ?thesis by auto
  next
    case None
    have k1: "steady uid n (processedCount (fst st0)) (tracker (snd st1))"
      using k by (simp add: st1_def steady_flush_batch [OF _ n])
    have p1: "processedCount (fst st1) = processedCount (fst st0)"
      by (simp add: st1_def)
    have e: "snd (processImportWithStreaming env ud mapping cm user uid rows None w) =
               cleanup ud uid
                 ((snd st1)\<lparr>tracker := updateProgress (tracker (snd st1)) now uid
                                        (counts_update (fst st1) None (Some finalizing))\<rparr>)"
      unfolding processImport_end st0_def now_def st1_def Let_def ..
    from steady_updateProgress_counts [OF k1 n, of "fst st1" now None "Some finalizing"] p1
    show ?thesis
      unfolding None e by auto
  qed
qed

lemma percent_zero: "0 < n \<Longrightarrow> percent 0 n = Fin 0"
proof -
  have "\<lfloor>(1 :: rat) / 2\<rfloor> = 0"
    by (rule floor_unique) simp_all
  then show "0 < n \<Longrightarrow> percent 0 n = Fin 0"
    by (simp add: percent_Fin)
qed

lemma steady_startImportSession:
  assumes "progress_trace tr = []" and n: "0 < n"
  shows "steady uid n 0 (fst (startImportSession tr now uid u n fname))"
proof -
  define s where "s = \<lparr>uploadId = uid, userId = u, filename = fname, totalRows = n,
                processedRows = 0, successfulRows = 0, errorRows = 0, errors = [],
                startTime = now, status = processing, currentBatch = 0,
                progress = Fin 0, estimatedTimeRemaining = None, processingSpeed = Fin 0,
                endTime = None, duration = None, result = None\<rparr>"
  define tr1 where "tr1 = tr\<lparr>importSessions := (importSessions tr)(uid \<mapsto> s)\<rparr>"
  define msg where "msg = \<lparr>msg_type = import_started, msg_uploadId = uploadId s, msg_session = s\<rparr>"
  have f: "totalRows s = n" "processedRows s = 0" "progress s = Fin 0"
    by (simp_all add: s_def)
  obtain k where k: "progress_trace (broadcastToUser tr1 u msg) = replicate k (Fin 0)"
    using progress_trace_broadcast [of tr1 u msg] assms(1) f(3)
    by (auto simp: tr1_def msg_def)
  have i: "importSessions (broadcastToUser tr1 u msg) uid = Some s"
    by (simp add: tr1_def)
  have "steady uid n 0 (broadcastToUser tr1 u msg)"
    unfolding steady_def i k
    by (simp add: f percent_zero [OF n] sorted_wrt_replicate_refl list_all_iff)
  then show ?thesis
    by (simp add: startImportSession_def Let_def s_def tr1_def msg_def)
qed

lemma steady_deletionTimers [simp]:
  "steady uid n p (tr\<lparr>deletionTimers := x\<rparr>) = steady uid n p tr"
  by (cases "importSessions tr uid") (simp_all add: steady_def progress_trace_def)

lemma steady_completeImportSession:
  assumes st: "steady uid n p tr" and n: "0 < n"
  shows "steady uid n p (completeImportSession tr now uid res)"
proof -
  from st obtain s0 where s0: "importSessions tr uid = Some s0"
    "totalRows s0 = n" "processedRows s0 \<le> p" "progress s0 = percent (processedRows s0) n"
    by (auto simp: steady_def split: option.splits)
  let ?s = "s0\<lparr>status := (if success res then completed else failed),
                      endTime := Some now,
                      duration := Some \<lfloor>(of_int (now - startTime s0) :: rat) / 1000 + 1 / 2\<rfloor>,
                      result := Some res\<rparr>"
  have "steady uid n p
          (broadcastToUser (tr\<lparr>importSessions := (importSessions tr)(uid \<mapsto> ?s)\<rparr>) (userId ?s)
             \<lparr>msg_type = import_completed, msg_uploadId = uploadId ?s, msg_session = ?s\<rparr>)"
    using s0 by (intro steady_store_broadcast [OF st s0(1) n]) simp_all
  then show ?thesis
    by (simp add: completeImportSession_def s0(1) Let_def)
qed

text \<open>
  The progress never decreases. When the total of the preview is positive and no message
  was sent before, the progress values of the messages the import sends (the start, every
  update, the completion) are in non-decreasing order, however the stream ends.
\<close>

theorem progress_never_decreases:
  assumes "tempStorage w uid = Some ud" and "ud_userId ud = user"
    and n: "0 < pv_totalRows (ud_preview ud)" and "progress_trace (tracker w) = []"
  shows "sorted_wrt js_le
           (progress_trace (tracker (snd (confirmImport env w uid bm bc user rows se))))"
proof -
  define mapping where "mapping = (case bm of None \<Rightarrow> pv_mapping (ud_preview ud) | Some m \<Rightarrow> m)"
  define cm where "cm = (case bc of None \<Rightarrow> Map.empty | Some c \<Rightarrow> c)"
  define tr1 where "tr1 = fst (startImportSession (tracker w) (clock env 0) uid user
                                 (pv_totalRows (ud_preview ud)) (ud_filename ud))"
  define out where "out = processImportWithStreaming env ud mapping cm user uid rows se
                            (w\<lparr>tracker := tr1\<rparr>)"
  define res where "res = (case fst out of
                           Inr finalResult \<Rightarrow> finalResult
                         | Inl error \<Rightarrow>
                             \<lparr>success = False, imported = None, result_errors = None,
                              result_total = None, result_message = None,
                              result_error = Some error\<rparr>)"
  have k1: "steady uid (pv_totalRows (ud_preview ud)) 0 (tracker (w\<lparr>tracker := tr1\<rparr>))"
    using assms(4) n by (simp add: tr1_def steady_startImportSession)
  obtain p where p: "steady uid (pv_totalRows (ud_preview ud)) p (tracker (snd out))"
    unfolding out_def using steady_processImport [OF k1 n] by blast
  have e: "snd (confirmImport env w uid bm bc user rows se) =
          (snd out)\<lparr>tracker := completeImportSession (tracker (snd out))
                                   (clock env (length rows + 2)) uid res\<rparr>"
    using assms(1,2)
    by (simp add: confirmImport_def Let_def split_beta out_def tr1_def mapping_def cm_def res_def)
  from steady_completeImportSession [OF p n, of "clock env (length rows + 2)" res]
  show ?thesis
    unfolding e by (auto simp: steady_def split: option.splits)
qed

lemma sample_progress_trace:
  "progress_trace (tracker (snd (confirmImport (sample_env bulk_fails) watched_server ''u1''
                                   None None ''alice'' rows_with_error None)))
     = [Fin 0, Fin 0, Fin 200, Fin 200]"
  by code_simp

text \<open>
  The file of four rows, with an open socket of the owner: the start, the update of the
  row error, the final update and the completion carry the progress 0, 0, 200 and 200.
\<close>

theorem progress_never_decreases_witness:
  "sorted_wrt js_le
     (progress_trace (tracker (snd (confirmImport (sample_env bulk_fails) watched_server ''u1''
                                      None None ''alice'' rows_with_error None)))) \<and>
   progress_trace (tracker (snd (confirmImport (sample_env bulk_fails) watched_server ''u1''
                                   None None ''alice'' rows_with_error None)))
     = [Fin 0, Fin 0, Fin 200, Fin 200]"
proof -
  have h1: "tempStorage watched_server ''u1'' = Some sample_staged"
    by (simp add: watched_server_def sample_server_def)
  have h2: "ud_userId sample_staged = ''alice''"
    by (simp add: sample_staged_def)
  have h3: "0 < pv_totalRows (ud_preview sample_staged)"
    by (simp add: sample_staged_def valid_sample_rows)
  have h4: "progress_trace (tracker watched_server) = []"
    by (simp add: watched_server_def sample_server_def progress_trace_def)
  from progress_never_decreases [OF h1 h2 h3 h4] sample_progress_trace
  show ?thesis
    by blast
qed

section \<open>A stream that fails\<close>

text \<open>
  A stream that ends with an error. When the requester owns the staged upload and the
  stream fails after some rows, the session ends in the status \<open>failed\<close>, with a result
  whose \<open>success\<close> is false and whose error is the message of the stream error.
\<close>

theorem stream_error_fails_session:
  assumes "tempStorage w uid = Some ud" and "ud_userId ud = user"
  shows "\<exists>s r. importSessions
                 (tracker (snd (confirmImport env w uid bm bc user rows (Some e)))) uid = Some s \<and>
               status s = failed \<and> result s = Some r \<and> \<not> success r \<and> result_error r = Some e"
proof -
  define mapping where "mapping = (case bm of None \<Rightarrow> pv_mapping (ud_preview ud) | Some m \<Rightarrow> m)"
  define cm where "cm = (case bc of None \<Rightarrow> Map.empty | Some c \<Rightarrow> c)"
  define n where "n = pv_totalRows (ud_preview ud)"
  define tr1 where "tr1 = fst (startImportSession (tracker w) (clock env 0) uid user n (ud_filename ud))"
  define out where "out = processImportWithStreaming env ud mapping cm user uid rows (Some e)
                            (w\<lparr>tracker := tr1\<rparr>)"
  define res where "res = \<lparr>success = False, imported = None, result_errors = None,
                              result_total = None, result_message = None,
                              result_error = Some e\<rparr>"
  have k1: "keeps uid n (tracker (w\<lparr>tracker := tr1\<rparr>))"
    by (simp add: tr1_def keeps_startImportSession)
  have "keeps uid n (tracker (snd out))"
    unfolding out_def by (rule keeps_processImport [OF k1])
  then obtain s0 where s0: "importSessions (tracker (snd out)) uid = Some s0"
    by (auto simp: keeps_def split: option.splits)
  have r: "fst out = Inl e"
    unfolding out_def by (rule stream_error_result)
  from completeImportSession_session [OF s0, of "clock env (length rows + 2)" res]
  obtain s where s: "importSessions
      (completeImportSession (tracker (snd out)) (clock env (length rows + 2)) uid res) uid = Some s"
      "status s = failed" "result s = Some res"
    by (auto simp: res_def)
  have "snd (confirmImport env w uid bm bc user rows (Some e)) =
          (snd out)\<lparr>tracker := completeImportSession (tracker (snd out))
                                   (clock env (length rows + 2)) uid res\<rparr>"
    using assms r
    by (simp add: confirmImport_def Let_def split_beta out_def tr1_def n_def mapping_def cm_def
        res_def)
  with s show ?thesis by (simp add: res_def)
qed

theorem stream_error_fails_session_witness:
  "\<exists>s r. importSessions
           (tracker (snd (confirmImport (sample_env bulk_ok) sample_server ''u1'' None None
                            ''alice'' sample_rows (Some ''EIO: read error'')))) ''u1'' = Some s \<and>
         status s = failed \<and> result s = Some r \<and> \<not> success r \<and>
         result_error r = Some ''EIO: read error''"
proof -
  have h1: "tempStorage sample_server ''u1'' = Some sample_staged"
    by (simp add: sample_server_def)
  have h2: "ud_userId sample_staged = ''alice''"
    by (simp add: sample_staged_def)
  show ?thesis
    by (rule stream_error_fails_session [OF h1 h2])
qed

end
